theory Spec2Isabelle
  imports Complex_Main "HOL-Library.AList" "HOL-Library.Multiset"
begin

section \<open>Strings of the program\<close>

text \<open>
  A JavaScript string is a sequence of UTF-16 code units; a code unit is modelled by its
  number. ASCII literals of the source are written through \<open>str\<close>.
\<close>

type_synonym jschar = nat
type_synonym jsstring = "nat list"

definition str :: "string \<Rightarrow> jsstring" where
  "str s = map of_char s"

text \<open>The characters that \<open>String.prototype.trim\<close> and \<open>parseInt\<close> strip:
  ECMAScript WhiteSpace and LineTerminator.\<close>

definition isWhiteSpace :: "jschar \<Rightarrow> bool" where
  "isWhiteSpace c = (c \<in> set [9, 10, 11, 12, 13, 32, 160, 5760, 8192, 8193, 8194, 8195, 8196,
     8197, 8198, 8199, 8200, 8201, 8202, 8232, 8233, 8239, 8287, 12288, 65279])"

definition trim :: "jsstring \<Rightarrow> jsstring" where
  "trim s = rev (dropWhile isWhiteSpace (rev (dropWhile isWhiteSpace s)))"

text \<open>
  \<open>s.split(sep)\<close> for a separator that matches exactly one code unit (the string
  \<open>'\n'\<close>, or a character class): the pieces between the matches, one more piece than
  there are matches, so the empty string gives one empty piece.
\<close>

fun split_str :: "(jschar \<Rightarrow> bool) \<Rightarrow> jsstring \<Rightarrow> jsstring list" where
  "split_str sep [] = [[]]"
| "split_str sep (c # cs) =
     (if sep c then [] # split_str sep cs
      else (c # hd (split_str sep cs)) # tl (split_str sep cs))"

definition isNewline :: "jschar \<Rightarrow> bool" where
  "isNewline c = (c = 10)"

text \<open>
  The character class of the regular expression in \<open>parseInputData\<close> and
  \<open>handleMastery\<close>: the ASCII colon U+003A and the full-width colon U+FF1A (the source's
  comment: both English and Chinese colons; the source file holds the second as the
  three characters that the UTF-8 bytes of U+FF1A give when they are read as
  Windows-1252).
\<close>

definition isSeparator :: "jschar \<Rightarrow> bool" where
  "isSeparator c = (c = 58 \<or> c = 65306)"

text \<open>\<open>join('\n')\<close> of an array of strings.\<close>

fun join_lines :: "jsstring list \<Rightarrow> jsstring" where
  "join_lines [] = []"
| "join_lines [l] = l"
| "join_lines (l # m # ls) = l @ 10 # join_lines (m # ls)"

text \<open>Decimal digits of a non-negative integer, as \<open>Number.prototype.toString\<close>
  writes it.\<close>

fun digits :: "nat \<Rightarrow> jsstring" where
  "digits n = (if n < 10 then [48 + n] else digits (n div 10) @ [48 + n mod 10])"

declare digits.simps [simp del]

section \<open>Parsing the active pool\<close>

record WordPair =
  id' :: jsstring
  char :: jsstring
  word :: jsstring

text \<open>The callback of \<open>map\<close> in \<open>parseInputData\<close>; \<open>None\<close> is its \<open>null\<close>.\<close>

definition parseLine :: "jsstring \<Rightarrow> nat \<Rightarrow> WordPair option" where
  "parseLine line index =
     (let parts = split_str isSeparator line in
      if length parts \<ge> 2 then
        Some \<lparr> id' = str ''word-'' @ trim (parts ! 0) @ str ''-'' @ digits index,
               char = trim (parts ! 0),
               word = trim (parts ! 1) \<rparr>
      else None)"

definition parseInputData :: "jsstring \<Rightarrow> WordPair list" where
  "parseInputData text =
     (if text = [] then []
      else
        let lines = split_str isNewline text in
        map the
          (filter (\<lambda>item. item \<noteq> None \<and> length (char (the item)) > 0)
             (map (\<lambda>(line, index). parseLine line index) (zip lines [0..<length lines]))))"

subsection \<open>The parser in the words of its description\<close>

text \<open>A line contains a separator; its first and second separated parts.\<close>

definition hasSeparator :: "jsstring \<Rightarrow> bool" where
  "hasSeparator line = list_ex isSeparator line"

definition firstPart :: "jsstring \<Rightarrow> jsstring" where
  "firstPart line = takeWhile (\<lambda>c. \<not> isSeparator c) line"

definition secondPart :: "jsstring \<Rightarrow> jsstring" where
  "secondPart line =
     takeWhile (\<lambda>c. \<not> isSeparator c) (tl (dropWhile (\<lambda>c. \<not> isSeparator c) line))"

definition keptLine :: "jsstring \<Rightarrow> bool" where
  "keptLine line = (hasSeparator line \<and> trim (firstPart line) \<noteq> [])"

section \<open>Numbers\<close>

text \<open>
  A JavaScript number as the counters hold it: an integer or \<open>NaN\<close>. Integers are exact
  here; the source's doubles are exact up to \<open>2^53\<close>.
\<close>

datatype jsnum = Num int | NaN

fun num_add :: "jsnum \<Rightarrow> jsnum \<Rightarrow> jsnum" where
  "num_add (Num a) (Num b) = Num (a + b)"
| "num_add _ _ = NaN"

fun num_sub :: "jsnum \<Rightarrow> jsnum \<Rightarrow> jsnum" where
  "num_sub (Num a) (Num b) = Num (a - b)"
| "num_sub _ _ = NaN"

fun num_abs :: "jsnum \<Rightarrow> jsnum" where
  "num_abs (Num a) = Num \<bar>a\<bar>"
| "num_abs NaN = NaN"

text \<open>\<open>a >= b\<close> and \<open>a > b\<close>: false as soon as one side is \<open>NaN\<close>.\<close>

fun num_ge :: "jsnum \<Rightarrow> jsnum \<Rightarrow> bool" where
  "num_ge (Num a) (Num b) = (b \<le> a)"
| "num_ge _ _ = False"

fun num_gt :: "jsnum \<Rightarrow> jsnum \<Rightarrow> bool" where
  "num_gt (Num a) (Num b) = (b < a)"
| "num_gt _ _ = False"

text \<open>\<open>Math.ceil(x / d)\<close> for a positive integer constant \<open>d\<close>.\<close>

fun num_ceil_div :: "jsnum \<Rightarrow> int \<Rightarrow> jsnum" where
  "num_ceil_div (Num a) d = Num \<lceil>(of_int a :: rat) / of_int d\<rceil>"
| "num_ceil_div NaN d = NaN"

fun num_toString :: "jsnum \<Rightarrow> jsstring" where
  "num_toString (Num i) = (if i < 0 then 45 # digits (nat (- i)) else digits (nat i))"
| "num_toString NaN = str ''NaN''"

definition isDigit :: "jschar \<Rightarrow> bool" where
  "isDigit c = (48 \<le> c \<and> c \<le> 57)"

definition digitsValue :: "jsstring \<Rightarrow> nat" where
  "digitsValue ds = foldl (\<lambda>acc c. 10 * acc + (c - 48)) 0 ds"

text \<open>
  \<open>parseInt(s, 10)\<close>: leading white space is skipped, one sign is read, then the longest
  run of decimal digits; what follows the digits is ignored, and no digit at all gives
  \<open>NaN\<close>.
\<close>

definition parseInt :: "jsstring \<Rightarrow> jsnum" where
  "parseInt s =
     (let t = dropWhile isWhiteSpace s;
          neg = (t \<noteq> [] \<and> hd t = 45);
          u = (if t \<noteq> [] \<and> (hd t = 45 \<or> hd t = 43) then tl t else t);
          ds = takeWhile isDigit u
      in if ds = [] then NaN
         else Num ((if neg then - 1 else 1) * int (digitsValue ds)))"

section \<open>The persistent store\<close>

datatype storage_key =
    STORAGE_KEY_GOAL
  | STORAGE_KEY_PROGRESS
  | STORAGE_KEY_STREAK
  | STORAGE_KEY_LAST_DATE
  | STORAGE_KEY_GOAL_MET
  | STORAGE_KEY_STATS
  | STORAGE_KEY_INPUT
  | STORAGE_KEY_LEARNED
  | STORAGE_KEY_TOTAL_SCORE

text \<open>\<open>localStorage\<close>: \<open>getItem\<close> is application, \<open>None\<close> is \<open>null\<close>.\<close>

type_synonym Storage = "storage_key \<Rightarrow> jsstring option"

definition setItem :: "storage_key \<Rightarrow> jsstring \<Rightarrow> Storage \<Rightarrow> Storage" where
  "setItem k v ls = ls(k \<mapsto> v)"

text \<open>\<open>v || d\<close> for a string or \<open>null\<close>: the empty string is falsy too.\<close>

definition orElse :: "jsstring option \<Rightarrow> jsstring \<Rightarrow> jsstring" where
  "orElse v d = (case v of None \<Rightarrow> d | Some s \<Rightarrow> if s = [] then d else s)"


section \<open>The clock\<close>

text \<open>
  What the source reads from \<open>Date\<close>: the current time in milliseconds, today's date
  string, and the time in milliseconds that \<open>new Date(s)\<close> gives for a stored date
  string \<open>s\<close> (the local midnight of that day; \<open>NaN\<close> for a string that is no date).
\<close>

record Clock =
  getTime :: int
  toDateString :: jsstring
  dateGetTime :: "jsstring \<Rightarrow> jsnum"

section \<open>The state of the application\<close>

text \<open>
  The state of the component together with the store. A handler is a function on this
  state: its state updates take effect in the order in which the handler issues them,
  and what it schedules for later is a separate function, applied afterwards.
\<close>

record WordStat =
  correct :: nat
  incorrect :: nat
  consecutiveCorrect :: nat

text \<open>\<open>WordStats\<close>: an object from char to record, its keys in insertion order.\<close>

type_synonym WordStats = "(jsstring \<times> WordStat) list"

datatype Feedback = none | correct_fb | incorrect_fb

record App =
  localStorage :: Storage
  inputText :: jsstring
  learnedText :: jsstring
  wordList :: "WordPair list"
  wordStats :: WordStats
  score :: jsnum
  currentOptions :: "WordPair list"
  targetWord :: "WordPair option"
  isPlayingAudio :: bool
  feedback :: Feedback
  masteryNotification :: "jsstring option"
  showCelebration :: bool
  dailyGoal :: jsnum
  dailyProgress :: jsnum
  streak :: jsnum
  goalMetToday :: bool


section \<open>Daily goal and streak\<close>

definition loadProgress :: "Clock \<Rightarrow> App \<Rightarrow> App" where
  "loadProgress clk a =
     (let ls = localStorage a;
          a1 = (case ls STORAGE_KEY_GOAL of
                  None \<Rightarrow> a
                | Some savedGoal \<Rightarrow>
                    if savedGoal \<noteq> [] then a\<lparr>dailyGoal := parseInt savedGoal\<rparr> else a);
          savedScore = parseInt (orElse (ls STORAGE_KEY_TOTAL_SCORE) (str ''0''));
          a2 = a1\<lparr>score := savedScore\<rparr>;
          lastDate = ls STORAGE_KEY_LAST_DATE;
          today = toDateString clk;
          savedStreak = parseInt (orElse (ls STORAGE_KEY_STREAK) (str ''0''));
          savedProgress = parseInt (orElse (ls STORAGE_KEY_PROGRESS) (str ''0''));
          savedGoalMet = (ls STORAGE_KEY_GOAL_MET = Some (str ''true''))
      in if lastDate = Some today then
           a2\<lparr>dailyProgress := savedProgress, streak := savedStreak,
              goalMetToday := savedGoalMet\<rparr>
         else
           let a3 = a2\<lparr>dailyProgress := Num 0, goalMetToday := False,
                       localStorage :=
                         setItem STORAGE_KEY_LAST_DATE today
                           (setItem STORAGE_KEY_GOAL_MET (str ''false'')
                              (setItem STORAGE_KEY_PROGRESS (str ''0'') ls))\<rparr>
           in case lastDate of
                None \<Rightarrow> a3\<lparr>streak := Num 0\<rparr>
              | Some d \<Rightarrow>
                  if d = [] then a3\<lparr>streak := Num 0\<rparr>
                  else
                    let diffTime = num_abs (num_sub (Num (getTime clk)) (dateGetTime clk d));
                        diffDays = num_ceil_div diffTime (1000 * 60 * 60 * 24)
                    in if num_gt diffDays (Num 1) \<and> \<not> savedGoalMet then
                         a3\<lparr>streak := Num 0,
                            localStorage := setItem STORAGE_KEY_STREAK (str ''0'') (localStorage a3)\<rparr>
                       else a3\<lparr>streak := savedStreak\<rparr>)"

text \<open>\<open>triggerCelebration\<close>: the celebration is shown (the sound and the timer that
  hides it again are presentation).\<close>

definition triggerCelebration :: "App \<Rightarrow> App" where
  "triggerCelebration a = a\<lparr>showCelebration := True\<rparr>"

definition updateProgress :: "Clock \<Rightarrow> App \<Rightarrow> App" where
  "updateProgress clk a =
     (let newProgress = num_add (dailyProgress a) (Num 1);
          a1 = a\<lparr>dailyProgress := newProgress,
                  localStorage :=
                    setItem STORAGE_KEY_LAST_DATE (toDateString clk)
                      (setItem STORAGE_KEY_PROGRESS (num_toString newProgress) (localStorage a))\<rparr>
      in if num_ge newProgress (dailyGoal a) \<and> \<not> goalMetToday a then
           let newStreak = num_add (streak a) (Num 1) in
           triggerCelebration
             (a1\<lparr>streak := newStreak, goalMetToday := True,
                 localStorage :=
                   setItem STORAGE_KEY_GOAL_MET (str ''true'')
                     (setItem STORAGE_KEY_STREAK (num_toString newStreak) (localStorage a1))\<rparr>)
         else a1)"

definition saveContentSettings :: "jsstring \<Rightarrow> jsstring \<Rightarrow> App \<Rightarrow> App" where
  "saveContentSettings newInput newLearned a =
     a\<lparr>inputText := newInput, learnedText := newLearned,
       localStorage :=
         setItem STORAGE_KEY_LEARNED newLearned
           (setItem STORAGE_KEY_INPUT newInput (localStorage a))\<rparr>"

section \<open>The performance ledger\<close>

definition zeroStat :: WordStat where
  "zeroStat = \<lparr>correct = 0, incorrect = 0, consecutiveCorrect = 0\<rparr>"

text \<open>\<open>stats[char] || { correct: 0, incorrect: 0, consecutiveCorrect: 0 }\<close>\<close>

definition statOf :: "WordStats \<Rightarrow> jsstring \<Rightarrow> WordStat" where
  "statOf stats c = (case map_of stats c of None \<Rightarrow> zeroStat | Some s \<Rightarrow> s)"



section \<open>JSON values and the runtime\<close>

text \<open>
  A value as \<open>JSON.parse\<close> returns it. Numbers are modelled for integer values; an object
  is the list of its members in the order of the text (a later duplicate key wins).
\<close>

datatype json =
    JNull
  | JBool bool
  | JNum int
  | JStr jsstring
  | JArr "json list"
  | JObj "(jsstring \<times> json) list"

datatype error = SyntaxError | TypeError | InvalidFormat

text \<open>Property access \<open>v.name\<close> on a value that is not \<open>null\<close>; \<open>None\<close> is
  \<open>undefined\<close>. None of the names read by the source is a property of arrays, strings,
  numbers or booleans, or inherited by objects.\<close>

definition getProp :: "json \<Rightarrow> string \<Rightarrow> json option" where
  "getProp v name = (case v of JObj kvs \<Rightarrow> map_of (rev kvs) (str name) | _ \<Rightarrow> None)"

definition json_truthy :: "json \<Rightarrow> bool" where
  "json_truthy v =
     (case v of JNull \<Rightarrow> False | JBool b \<Rightarrow> b | JNum i \<Rightarrow> i \<noteq> 0
      | JStr s \<Rightarrow> s \<noteq> [] | JArr xs \<Rightarrow> True | JObj kvs \<Rightarrow> True)"

fun join_commas :: "jsstring list \<Rightarrow> jsstring" where
  "join_commas [] = []"
| "join_commas [s] = s"
| "join_commas (s # t # ss) = s @ 44 # join_commas (t # ss)"

text \<open>The elements of an array as \<open>join\<close> writes them: \<open>null\<close> as the empty string,
  every other element through its string conversion; \<open>None\<close> when one of them throws.\<close>

fun joinElements :: "json list \<Rightarrow> jsstring option list \<Rightarrow> jsstring list option" where
  "joinElements (x # xs) (r # rs) =
     (case (if x = JNull then Some [] else r) of
        None \<Rightarrow> None
      | Some s \<Rightarrow> map_option ((#) s) (joinElements xs rs))"
| "joinElements _ _ = Some []"

text \<open>
  The string conversion of a value, as \<open>localStorage.setItem\<close> applies it to its second
  argument; \<open>None\<close> is a thrown \<open>TypeError\<close> (an object whose own member \<open>toString\<close>
  hides the inherited method).
\<close>

primrec ToString :: "json \<Rightarrow> jsstring option" where
  "ToString JNull = Some (str ''null'')"
| "ToString (JBool b) = Some (if b then str ''true'' else str ''false'')"
| "ToString (JNum i) = Some (num_toString (Num i))"
| "ToString (JStr s) = Some s"
| "ToString (JArr xs) = map_option join_commas (joinElements xs (map ToString xs))"
| "ToString (JObj kvs) =
     (if str ''toString'' \<in> set (map fst kvs) then None else Some (str ''[object Object]''))"

text \<open>The method call \<open>v.toString()\<close>: on \<open>null\<close> it throws.\<close>

definition callToString :: "json \<Rightarrow> jsstring option" where
  "callToString v = (if v = JNull then None else ToString v)"

text \<open>
  What the program takes from outside its source file: the constant \<open>DEFAULT_DATA\<close> of
  \<open>./constants\<close>, and \<open>JSON.stringify\<close> and \<open>JSON.parse\<close> of the runtime (\<open>None\<close>
  when \<open>JSON.parse\<close> throws). \<open>JSON_parse_stats\<close> is \<open>JSON.parse\<close> at the type
  \<open>WordStats\<close>, as \<open>loadStats\<close> takes its result.
\<close>

record Env =
  DEFAULT_DATA :: jsstring
  JSON_stringify :: "json \<Rightarrow> jsstring"
  JSON_parse :: "jsstring \<Rightarrow> json option"
  JSON_parse_stats :: "jsstring \<Rightarrow> WordStats option"
  toISOString :: jsstring



section \<open>Loading content and statistics\<close>

definition loadContent :: "Env \<Rightarrow> App \<Rightarrow> App" where
  "loadContent env a =
     (let savedInput = localStorage a STORAGE_KEY_INPUT;
          savedLearned = localStorage a STORAGE_KEY_LEARNED;
          currentInput = (case savedInput of None \<Rightarrow> DEFAULT_DATA env | Some s \<Rightarrow> s);
          a1 = a\<lparr>inputText := currentInput, wordList := parseInputData currentInput\<rparr>
      in case savedLearned of
           None \<Rightarrow> a1
         | Some l \<Rightarrow> if l \<noteq> [] then a1\<lparr>learnedText := l\<rparr> else a1)"

definition loadStats :: "Env \<Rightarrow> App \<Rightarrow> App" where
  "loadStats env a =
     (case localStorage a STORAGE_KEY_STATS of
        None \<Rightarrow> a
      | Some saved \<Rightarrow>
          if saved = [] then a
          else (case JSON_parse_stats env saved of
                  None \<Rightarrow> a
                | Some stats \<Rightarrow> a\<lparr>wordStats := stats\<rparr>))"

section \<open>Backup: export and import\<close>

text \<open>A counter of the exported document after \<open>JSON.stringify\<close> and \<open>JSON.parse\<close>:
  \<open>NaN\<close> is written as \<open>null\<close>.\<close>

definition jsonOfNum :: "jsnum \<Rightarrow> json" where
  "jsonOfNum n = (case n of Num i \<Rightarrow> JNum i | NaN \<Rightarrow> JNull)"

definition jsonOfItem :: "jsstring option \<Rightarrow> json" where
  "jsonOfItem v = (case v of None \<Rightarrow> JNull | Some s \<Rightarrow> JStr s)"

text \<open>
  \<open>handleExportData\<close>: the document that the downloaded file holds, as \<open>JSON.parse\<close>
  reads it back; \<open>None\<close> when \<open>JSON.parse\<close> of the stored statistics throws (the
  handler does not catch it, and nothing is downloaded).
\<close>

definition handleExportData :: "Env \<Rightarrow> Storage \<Rightarrow> json option" where
  "handleExportData env ls =
     (case JSON_parse env (orElse (ls STORAGE_KEY_STATS) (str ''{}'')) of
        None \<Rightarrow> None
      | Some stats \<Rightarrow>
          Some (JObj
            [(str ''version'', JNum 1),
             (str ''timestamp'', JStr (toISOString env)),
             (str ''data'', JObj
               [(str ''input'', JStr (orElse (ls STORAGE_KEY_INPUT) (DEFAULT_DATA env))),
                (str ''learned'', JStr (orElse (ls STORAGE_KEY_LEARNED) [])),
                (str ''stats'', stats),
                (str ''totalScore'',
                   jsonOfNum (parseInt (orElse (ls STORAGE_KEY_TOTAL_SCORE) (str ''0'')))),
                (str ''streak'',
                   jsonOfNum (parseInt (orElse (ls STORAGE_KEY_STREAK) (str ''0'')))),
                (str ''dailyGoal'',
                   jsonOfNum (parseInt (orElse (ls STORAGE_KEY_GOAL) (str ''10'')))),
                (str ''dailyProgress'',
                   jsonOfNum (parseInt (orElse (ls STORAGE_KEY_PROGRESS) (str ''0'')))),
                (str ''lastDate'', jsonOfItem (ls STORAGE_KEY_LAST_DATE)),
                (str ''goalMet'', jsonOfItem (ls STORAGE_KEY_GOAL_MET))])]))"

text \<open>
  The nine statements under \<open>Restore to LocalStorage\<close>, in their order: the member of
  \<open>data\<close>, the key it is written to, and how the value becomes a string (passed to
  \<open>setItem\<close> as it is, through \<open>JSON.stringify\<close>, or through its \<open>toString\<close> method).
\<close>

datatype conversion = AsItIs | Stringify | ToStringMethod

definition restoreFields :: "(string \<times> storage_key \<times> conversion) list" where
  "restoreFields =
     [(''input'', STORAGE_KEY_INPUT, AsItIs),
      (''learned'', STORAGE_KEY_LEARNED, AsItIs),
      (''stats'', STORAGE_KEY_STATS, Stringify),
      (''totalScore'', STORAGE_KEY_TOTAL_SCORE, ToStringMethod),
      (''streak'', STORAGE_KEY_STREAK, ToStringMethod),
      (''dailyGoal'', STORAGE_KEY_GOAL, ToStringMethod),
      (''dailyProgress'', STORAGE_KEY_PROGRESS, ToStringMethod),
      (''lastDate'', STORAGE_KEY_LAST_DATE, AsItIs),
      (''goalMet'', STORAGE_KEY_GOAL_MET, AsItIs)]"

definition convert :: "Env \<Rightarrow> conversion \<Rightarrow> json \<Rightarrow> jsstring option" where
  "convert env c v =
     (case c of
        AsItIs \<Rightarrow> ToString v
      | Stringify \<Rightarrow> Some (JSON_stringify env v)
      | ToStringMethod \<Rightarrow> callToString v)"

text \<open>Each statement writes its member when it is not \<open>undefined\<close>; a conversion that
  throws leaves the statements before it done and the ones after it undone.\<close>

fun restore ::
  "Env \<Rightarrow> json \<Rightarrow> (string \<times> storage_key \<times> conversion) list \<Rightarrow> Storage
     \<Rightarrow> Storage \<times> error option" where
  "restore env d [] ls = (ls, None)"
| "restore env d ((name, key, c) # rest) ls =
     (case getProp d name of
        None \<Rightarrow> restore env d rest ls
      | Some v \<Rightarrow>
          (case convert env c v of
             None \<Rightarrow> (ls, Some TypeError)
           | Some s \<Rightarrow> restore env d rest (setItem key s ls)))"

text \<open>
  The \<open>onload\<close> handler of \<open>handleFileChange\<close>, given what \<open>JSON.parse\<close> makes of the
  file (\<open>None\<close> when it throws). The second component is the error that the \<open>catch\<close>
  reports, \<open>None\<close> when the data was restored and the state reloaded.
\<close>

definition handleFileChange :: "Env \<Rightarrow> Clock \<Rightarrow> json option \<Rightarrow> App \<Rightarrow> App \<times> error option" where
  "handleFileChange env clk content a =
     (case content of
        None \<Rightarrow> (a, Some SyntaxError)
      | Some parsed \<Rightarrow>
          if parsed = JNull then (a, Some TypeError)
          else
            (case getProp parsed ''data'' of
               None \<Rightarrow> (a, Some InvalidFormat)
             | Some d \<Rightarrow>
                 if \<not> json_truthy d then (a, Some InvalidFormat)
                 else
                   (case restore env d restoreFields (localStorage a) of
                      (ls, Some e) \<Rightarrow> (a\<lparr>localStorage := ls\<rparr>, Some e)
                    | (ls, None) \<Rightarrow>
                        (loadStats env (loadProgress clk (loadContent env (a\<lparr>localStorage := ls\<rparr>))),
                         None))))"

section \<open>The round selector\<close>

text \<open>
  The random numbers of one call of \<open>setupRound\<close>. \<open>randomTimes t\<close> is the value that
  the source computes for \<open>Math.random() * t\<close>; the arithmetic of the model is exact, so
  the rounding of the source's floating-point subtractions is left to this value, which
  is not tied to \<open>t\<close> here. The two \<open>sort\<close> calls with a random comparator are the two
  shuffles; the other draws are values of \<open>Math.random()\<close>.
\<close>

record Random =
  randomTimes :: "rat \<Rightarrow> rat"
  fallbackRandom :: rat
  shuffleDistractors :: "WordPair list \<Rightarrow> WordPair list"
  fillRandoms :: "rat list"
  shuffleOptions :: "WordPair list \<Rightarrow> WordPair list"

definition weight :: "WordStat \<Rightarrow> rat" where
  "weight s = 10 * (1 + of_nat (incorrect s) * 3) / (1 + of_nat (correct s) * (1 / 2))"

definition itemsWithWeights :: "WordStats \<Rightarrow> WordPair list \<Rightarrow> (WordPair \<times> rat) list" where
  "itemsWithWeights stats currentList =
     map (\<lambda>item. (item, weight (statOf stats (char item)))) currentList"

definition totalWeight :: "(WordPair \<times> rat) list \<Rightarrow> rat" where
  "totalWeight items = foldl (\<lambda>sum x. sum + snd x) 0 items"

text \<open>\<open>xs[i]\<close>: \<open>undefined\<close> out of range.\<close>

definition at_index :: "'a list \<Rightarrow> nat \<Rightarrow> 'a option" where
  "at_index xs i = (if i < length xs then Some (xs ! i) else None)"

text \<open>\<open>Math.floor(u * n)\<close>\<close>

definition randomIndex :: "rat \<Rightarrow> nat \<Rightarrow> nat" where
  "randomIndex u n = nat \<lfloor>u * of_nat n\<rfloor>"

text \<open>The \<open>for\<close> loop over the weighted items: the target it leaves.\<close>

fun walk :: "(WordPair \<times> rat) list \<Rightarrow> rat \<Rightarrow> WordPair option \<Rightarrow> WordPair option" where
  "walk [] randomVal target = target"
| "walk (entry # rest) randomVal target =
     (let randomVal' = randomVal - snd entry
      in if randomVal' \<le> 0 then Some (fst entry) else walk rest randomVal' target)"

text \<open>The target selection of \<open>setupRound\<close> for a non-empty list; \<open>None\<close> is an
  unset target.\<close>

definition selectTarget :: "Random \<Rightarrow> WordStats \<Rightarrow> WordPair list \<Rightarrow> WordPair option" where
  "selectTarget rnd stats currentList =
     (let items = itemsWithWeights stats currentList;
          randomVal = randomTimes rnd (totalWeight items);
          target = walk items randomVal (at_index currentList 0)
      in case target of
           None \<Rightarrow> at_index currentList (randomIndex (fallbackRandom rnd) (length currentList))
         | Some t \<Rightarrow> Some t)"

text \<open>The first loop over the shuffled distractors.\<close>

fun pickDistractors ::
  "WordPair list \<Rightarrow> WordPair list \<Rightarrow> jsstring set \<Rightarrow> WordPair list \<times> jsstring set" where
  "pickDistractors [] selected usedChars = (selected, usedChars)"
| "pickDistractors (d # ds) selected usedChars =
     (let (selected', usedChars') =
            (if char d \<notin> usedChars then (selected @ [d], insert (char d) usedChars)
             else (selected, usedChars))
      in if length selected' \<ge> 2 then (selected', usedChars')
         else pickDistractors ds selected' usedChars')"

text \<open>
  The \<open>while\<close> loop that fills up the distractors, one random draw for each turn.
  \<open>None\<close>: the loop has not ended when the draws are used up.
\<close>

fun fillDistractors ::
  "rat list \<Rightarrow> WordPair list \<Rightarrow> WordPair \<Rightarrow> WordPair list \<Rightarrow> jsstring set
     \<Rightarrow> WordPair list option" where
  "fillDistractors [] currentList target selected usedChars =
     (if length selected < 2 \<and> length currentList \<ge> 3 then None else Some selected)"
| "fillDistractors (u # us) currentList target selected usedChars =
     (if length selected < 2 \<and> length currentList \<ge> 3 then
        (case at_index currentList (randomIndex u (length currentList)) of
           None \<Rightarrow> None
         | Some r \<Rightarrow>
             let (selected', usedChars') =
                   (if char r \<noteq> char target \<and> char r \<notin> usedChars
                    then (selected @ [r], insert (char r) usedChars)
                    else (selected, usedChars))
             in if length selected' \<ge> 2 then Some selected'
                else fillDistractors us currentList target selected' usedChars')
      else Some selected)"

text \<open>\<open>setupRound\<close>; \<open>None\<close> when it does not complete.\<close>

definition setupRound :: "Random \<Rightarrow> App \<Rightarrow> App option" where
  "setupRound rnd a =
     (let currentList = wordList a in
      if currentList = [] then Some (a\<lparr>targetWord := None\<rparr>)
      else
        (case selectTarget rnd (wordStats a) currentList of
           None \<Rightarrow> None
         | Some target \<Rightarrow>
             let potentialDistractors = filter (\<lambda>w. char w \<noteq> char target) currentList;
                 shuffledDistractors = shuffleDistractors rnd potentialDistractors;
                 (selected, usedChars) = pickDistractors shuffledDistractors [] {}
             in (case fillDistractors (fillRandoms rnd) currentList target selected usedChars of
                   None \<Rightarrow> None
                 | Some selectedDistractors \<Rightarrow>
                     Some (a\<lparr>targetWord := Some target,
                             currentOptions := shuffleOptions rnd (target # selectedDistractors),
                             feedback := none\<rparr>))))"

section \<open>The answer evaluator\<close>

text \<open>\<open>lines.findIndex(p)\<close>; \<open>None\<close> is \<open>-1\<close>.\<close>

fun findIndex :: "('a \<Rightarrow> bool) \<Rightarrow> 'a list \<Rightarrow> nat option" where
  "findIndex p [] = None"
| "findIndex p (x # xs) = (if p x then Some 0 else map_option Suc (findIndex p xs))"

definition handleMastery :: "WordPair \<Rightarrow> App \<Rightarrow> App" where
  "handleMastery word' a =
     (let a1 = a\<lparr>masteryNotification := Some (char word')\<rparr>;
          lines = split_str isNewline (inputText a)
      in case findIndex (\<lambda>l. trim (split_str isSeparator l ! 0) = char word') lines of
           None \<Rightarrow> a1
         | Some lineIndex \<Rightarrow>
             let line = lines ! lineIndex;
                 newLines = take lineIndex lines @ drop (Suc lineIndex) lines;
                 newInput = join_lines newLines;
                 newLearned = (if learnedText a \<noteq> [] then learnedText a @ [10] else []) @ line
             in (saveContentSettings newInput newLearned a1)
                  \<lparr>wordList := parseInputData newInput\<rparr>)"



section \<open>The initial state\<close>

text \<open>The state that the \<open>useState\<close> calls give the component, over a given store, and
  the effect that runs once on mount.\<close>

definition initialState :: "Env \<Rightarrow> Storage \<Rightarrow> App" where
  "initialState env ls =
     \<lparr>localStorage = ls, inputText = DEFAULT_DATA env, learnedText = [], wordList = [],
      wordStats = [], score = Num 0, currentOptions = [], targetWord = None,
      isPlayingAudio = False, feedback = none, masteryNotification = None,
      showCelebration = False, dailyGoal = Num 10, dailyProgress = Num 0, streak = Num 0,
      goalMetToday = False\<rparr>"

definition mount :: "Env \<Rightarrow> Clock \<Rightarrow> Storage \<Rightarrow> App" where
  "mount env clk ls = loadContent env (loadStats env (loadProgress clk (initialState env ls)))"

definition emptyStorage :: Storage where
  "emptyStorage = (\<lambda>k. None)"

section \<open>A runtime for the examples\<close>

text \<open>\<open>JSON.stringify\<close> without indentation, on the values of type \<open>json\<close>.\<close>

definition hexDigit :: "nat \<Rightarrow> jschar" where
  "hexDigit d = (if d < 10 then 48 + d else 87 + d)"

definition unicodeEscape :: "jschar \<Rightarrow> jsstring" where
  "unicodeEscape c =
     [92, 117, hexDigit (c div 4096 mod 16), hexDigit (c div 256 mod 16),
      hexDigit (c div 16 mod 16), hexDigit (c mod 16)]"

definition isHighSurrogate :: "jschar \<Rightarrow> bool" where
  "isHighSurrogate c = (55296 \<le> c \<and> c \<le> 56319)"

definition isLowSurrogate :: "jschar \<Rightarrow> bool" where
  "isLowSurrogate c = (56320 \<le> c \<and> c \<le> 57343)"

definition quoteUnit :: "jschar \<Rightarrow> jsstring" where
  "quoteUnit c =
     (if c = 8 then [92, 98] else if c = 9 then [92, 116] else if c = 10 then [92, 110]
      else if c = 12 then [92, 102] else if c = 13 then [92, 114]
      else if c = 34 then [92, 34] else if c = 92 then [92, 92]
      else if c < 32 \<or> isHighSurrogate c \<or> isLowSurrogate c then unicodeEscape c
      else [c])"

fun quoteUnits :: "jsstring \<Rightarrow> jsstring" where
  "quoteUnits (c # d # cs) =
     (if isHighSurrogate c \<and> isLowSurrogate d then c # d # quoteUnits cs
      else quoteUnit c @ quoteUnits (d # cs))"
| "quoteUnits [c] = quoteUnit c"
| "quoteUnits [] = []"

definition quoteJSONString :: "jsstring \<Rightarrow> jsstring" where
  "quoteJSONString s = 34 # quoteUnits s @ [34]"

primrec stringify :: "json \<Rightarrow> jsstring" where
  "stringify JNull = str ''null''"
| "stringify (JBool b) = (if b then str ''true'' else str ''false'')"
| "stringify (JNum i) = num_toString (Num i)"
| "stringify (JStr s) = quoteJSONString s"
| "stringify (JArr xs) = 91 # join_commas (map stringify xs) @ [93]"
| "stringify (JObj kvs) =
     123 # join_commas (map (\<lambda>(k, v). quoteJSONString k @ 58 # v) (map (map_prod id stringify) kvs))
       @ [125]"

text \<open>
  The environment of the examples: three lines of default content, the serialiser above,
  and \<open>JSON.parse\<close> on the one text that the examples give it, \<open>{}\<close>.
\<close>

definition sampleEnv :: Env where
  "sampleEnv =
     \<lparr>DEFAULT_DATA = join_lines [str ''a:x'', str ''b:y'', str ''c:z''],
      JSON_stringify = stringify,
      JSON_parse = (\<lambda>s. if s = str ''{}'' then Some (JObj []) else None),
      JSON_parse_stats = (\<lambda>s. if s = str ''{}'' then Some [] else None),
      toISOString = str ''2026-11-02T10:00:00.000Z''\<rparr>"

text \<open>
  The clock of the examples: Monday 2 November 2026, 10:00, in a time zone without
  offset; the date strings of that day and of the day before, each with the time of its
  midnight.
\<close>

definition sampleClock :: Clock where
  "sampleClock =
     \<lparr>getTime = 1793613600000,
      toDateString = str ''Mon Nov 02 2026'',
      dateGetTime = (\<lambda>s. if s = str ''Mon Nov 02 2026'' then Num 1793577600000
                          else if s = str ''Sun Nov 01 2026'' then Num 1793491200000
                          else NaN)\<rparr>"

section \<open>States of the examples\<close>

text \<open>A store left by the day before the examples' clock: the goal not met, a streak of
  three.\<close>

definition yesterdayStorage :: Storage where
  "yesterdayStorage =
     emptyStorage(STORAGE_KEY_LAST_DATE \<mapsto> str ''Sun Nov 01 2026'',
                  STORAGE_KEY_STREAK \<mapsto> str ''3'',
                  STORAGE_KEY_PROGRESS \<mapsto> str ''4'',
                  STORAGE_KEY_GOAL_MET \<mapsto> str ''false'')"

text \<open>The three items of the examples' default content.\<close>

definition itemA :: WordPair where
  "itemA = \<lparr>id' = str ''word-a-0'', char = str ''a'', word = str ''x''\<rparr>"

definition itemB :: WordPair where
  "itemB = \<lparr>id' = str ''word-b-1'', char = str ''b'', word = str ''y''\<rparr>"

definition itemC :: WordPair where
  "itemC = \<lparr>id' = str ''word-c-2'', char = str ''c'', word = str ''z''\<rparr>"

text \<open>A round on the three items with \<open>a\<close> as its target, nothing answered yet.\<close>

definition playingA :: App where
  "playingA =
     (initialState sampleEnv emptyStorage)
       \<lparr>wordList := [itemA, itemB, itemC], targetWord := Some itemA,
        currentOptions := [itemB, itemA, itemC]\<rparr>"

text \<open>Nine correct answers today, a goal of ten, a streak of four.\<close>

definition nineOfTen :: App where
  "nineOfTen = (initialState sampleEnv emptyStorage)\<lparr>dailyProgress := Num 9, streak := Num 4\<rparr>"

section \<open>Roulette-wheel selection in the words of its description\<close>

text \<open>The index of the first item, in pool order, whose cumulative weight reaches the
  draw; \<open>None\<close> when the accumulation never reaches it.\<close>

definition firstReaching :: "rat list \<Rightarrow> rat \<Rightarrow> nat option" where
  "firstReaching ws r = find (\<lambda>k. r \<le> sum_list (take (Suc k) ws)) [0..<length ws]"

section \<open>Random numbers of the examples\<close>

text \<open>A draw in the middle of the wheel, and shuffles that reverse.\<close>

definition sampleRandom :: Random where
  "sampleRandom =
     \<lparr>randomTimes = (\<lambda>t. t * (1 / 2)), fallbackRandom = 1 / 2, shuffleDistractors = rev,
      fillRandoms = [], shuffleOptions = rev\<rparr>"



section \<open>A pool with a line that has no separator\<close>




section \<open>The import in the words of its description\<close>

text \<open>The \<open>data\<close> of a payload that has the required structure: the file is JSON, and
  its value has a truthy member \<open>data\<close>.\<close>

definition dataOf :: "json option \<Rightarrow> json option" where
  "dataOf content =
     (case content of
        None \<Rightarrow> None
      | Some parsed \<Rightarrow>
          (case getProp parsed ''data'' of
             None \<Rightarrow> None
           | Some d \<Rightarrow> if json_truthy d then Some d else None))"


section \<open>Stores and backups of the examples\<close>

text \<open>A store with every key written, last active on the day of the examples' clock; a
  backup whose \<open>data\<close> has the input text and nothing else; and one whose total score
  is \<open>null\<close>.\<close>

definition todayStorage :: Storage where
  "todayStorage =
     emptyStorage(STORAGE_KEY_INPUT \<mapsto> join_lines [str ''a:x'', str ''b:y'', str ''c:z''],
                  STORAGE_KEY_LEARNED \<mapsto> str ''d:w'',
                  STORAGE_KEY_STATS \<mapsto> str ''{}'',
                  STORAGE_KEY_TOTAL_SCORE \<mapsto> str ''7'',
                  STORAGE_KEY_STREAK \<mapsto> str ''3'',
                  STORAGE_KEY_GOAL \<mapsto> str ''10'',
                  STORAGE_KEY_PROGRESS \<mapsto> str ''4'',
                  STORAGE_KEY_LAST_DATE \<mapsto> str ''Mon Nov 02 2026'',
                  STORAGE_KEY_GOAL_MET \<mapsto> str ''false'')"


definition nullScoreBackup :: json where
  "nullScoreBackup =
     JObj [(str ''version'', JNum 1),
           (str ''data'', JObj [(str ''input'', JStr (str ''q:r'')), (str ''totalScore'', JNull)])]"

section \<open>The exported document\<close>

text \<open>The member \<open>data\<close> of the document that \<open>handleExportData\<close> builds, by its
  nine members.\<close>

definition exportedData ::
  "jsstring \<Rightarrow> jsstring \<Rightarrow> json \<Rightarrow> json \<Rightarrow> json \<Rightarrow> json \<Rightarrow> json \<Rightarrow> json \<Rightarrow> json \<Rightarrow> json" where
  "exportedData i l v n1 n2 n3 n4 dt g =
     JObj [(str ''input'', JStr i), (str ''learned'', JStr l), (str ''stats'', v),
           (str ''totalScore'', n1), (str ''streak'', n2), (str ''dailyGoal'', n3),
           (str ''dailyProgress'', n4), (str ''lastDate'', dt), (str ''goalMet'', g)]"

text \<open>The store of the examples with an empty input text (the content cleared, or
  every item mastered), and the same store without a streak key.\<close>

definition clearedStorage :: Storage where
  "clearedStorage = todayStorage(STORAGE_KEY_INPUT \<mapsto> [])"

definition unstreakedStorage :: Storage where
  "unstreakedStorage = todayStorage(STORAGE_KEY_STREAK := None)"

section \<open>Properties of the parser\<close>

lemma split_str_not_Nil: "split_str sep s \<noteq> []"
  by (induction s) auto

lemma hd_split_str: "hd (split_str sep s) = takeWhile (\<lambda>c. \<not> sep c) s"
  by (induction s) auto

lemma length_split_str: "length (split_str sep s) = Suc (length (filter sep s))"
proof (induction s)
  case Nil
  show ?case by simp
next
  case (Cons c cs)
  have "length (tl (split_str sep cs)) = length (filter sep cs)"
    using Cons.IH by simp
  with Cons.IH show ?case by simp
qed

lemma split_str_two_parts: "(2 \<le> length (split_str sep s)) = list_ex sep s"
  by (simp add: length_split_str list_ex_iff filter_empty_conv Suc_le_eq)

lemma split_str_second:
  "list_ex sep s \<Longrightarrow>
     split_str sep s ! 1 = takeWhile (\<lambda>c. \<not> sep c) (tl (dropWhile (\<lambda>c. \<not> sep c) s))"
proof (induction s)
  case Nil
  then show ?case by simp
next
  case (Cons c cs)
  show ?case
  proof (cases "sep c")
    case True
    then show ?thesis
      using hd_split_str [of sep cs] split_str_not_Nil [of sep cs]
      by (simp add: hd_conv_nth)
  next
    case False
    with Cons.prems have ex: "list_ex sep cs" by simp
    have "tl (split_str sep cs) \<noteq> []"
      using split_str_two_parts [of sep cs] ex
      by (cases "split_str sep cs") auto
    then have "tl (split_str sep cs) ! 0 = split_str sep cs ! 1"
      by (cases "split_str sep cs") auto
    with False Cons.IH [OF ex] show ?thesis by simp
  qed
qed

lemma parseLine_kept:
  "parseLine line index =
     (if hasSeparator line then
        Some \<lparr> id' = str ''word-'' @ trim (firstPart line) @ str ''-'' @ digits index,
               char = trim (firstPart line),
               word = trim (secondPart line) \<rparr>
      else None)"
proof (cases "list_ex isSeparator line")
  case True
  have "split_str isSeparator line ! 0 = firstPart line"
    using hd_split_str [of isSeparator line] split_str_not_Nil [of isSeparator line]
    by (simp add: hd_conv_nth firstPart_def)
  moreover have "split_str isSeparator line ! 1 = secondPart line"
    using split_str_second [OF True] by (simp add: secondPart_def)
  ultimately show ?thesis
    using True split_str_two_parts [of isSeparator line]
    by (simp add: parseLine_def hasSeparator_def Let_def)
next
  case False
  then show ?thesis
    using split_str_two_parts [of isSeparator line]
    by (simp add: parseLine_def hasSeparator_def Let_def)
qed

lemma parsed_items_of_lines:
  "map (\<lambda>w. (char w, word w))
     (map the (filter (\<lambda>item. item \<noteq> None \<and> length (char (the item)) > 0)
        (map (\<lambda>(line, index). parseLine line index) zs)))
   = map (\<lambda>l. (trim (firstPart l), trim (secondPart l))) (filter keptLine (map fst zs))"
proof (induction zs)
  case Nil
  show ?case by simp
next
  case (Cons z zs)
  obtain l i where z: "z = (l, i)" by (cases z)
  show ?case
  proof (cases "hasSeparator l")
    case True
    with Cons.IH z show ?thesis by (simp add: parseLine_kept keptLine_def)
  next
    case False
    with Cons.IH z show ?thesis by (simp add: parseLine_kept keptLine_def)
  qed
qed


section \<open>Properties of the performance ledger\<close>











section \<open>Properties of the daily goal and the streak\<close>

lemma updateProgress_goal_met:
  "goalMetToday a \<Longrightarrow>
     goalMetToday (updateProgress clk a) \<and> streak (updateProgress clk a) = streak a"
  by (simp add: updateProgress_def Let_def)

lemma updateProgress_iter_goal_met:
  "goalMetToday a \<Longrightarrow>
     goalMetToday ((updateProgress clk ^^ n) a) \<and> streak ((updateProgress clk ^^ n) a) = streak a"
  by (induction n) (simp_all add: updateProgress_goal_met)

lemma updateProgress_step:
  assumes "dailyProgress a = Num p" "dailyGoal a = Num g" "streak a = Num s"
  shows "dailyProgress (updateProgress clk a) = Num (p + 1)"
    and "dailyGoal (updateProgress clk a) = Num g"
    and "g \<le> p + 1 \<and> \<not> goalMetToday a \<Longrightarrow>
           streak (updateProgress clk a) = Num (s + 1) \<and> goalMetToday (updateProgress clk a)
           \<and> showCelebration (updateProgress clk a)"
    and "\<not> (g \<le> p + 1 \<and> \<not> goalMetToday a) \<Longrightarrow>
           streak (updateProgress clk a) = Num s
           \<and> goalMetToday (updateProgress clk a) = goalMetToday a
           \<and> showCelebration (updateProgress clk a) = showCelebration a"
  using assms by (auto simp add: updateProgress_def Let_def triggerCelebration_def)

lemma updateProgress_iter_streak:
  "dailyProgress a = Num p \<Longrightarrow> dailyGoal a = Num g \<Longrightarrow> streak a = Num s \<Longrightarrow>
     streak ((updateProgress clk ^^ n) a) = Num s \<or>
     streak ((updateProgress clk ^^ n) a) = Num (s + 1)"
proof (induction n arbitrary: a p)
  case 0
  then show ?case by simp
next
  case (Suc n)
  let ?b = "updateProgress clk a"
  have iter: "(updateProgress clk ^^ Suc n) a = (updateProgress clk ^^ n) ?b"
    by (simp add: funpow_swap1)
  show ?case
  proof (cases "g \<le> p + 1 \<and> \<not> goalMetToday a")
    case True
    have "streak ?b = Num (s + 1) \<and> goalMetToday ?b"
      using updateProgress_step(3) [OF Suc.prems True] by simp
    then show ?thesis
      using updateProgress_iter_goal_met [where a = "?b" and clk = clk and n = n] iter by simp
  next
    case False
    have "streak ?b = Num s"
      using updateProgress_step(4) [OF Suc.prems False] by simp
    then show ?thesis
      using Suc.IH [where a = "?b" and p = "p + 1"] updateProgress_step(1,2) [OF Suc.prems] iter
      by simp
  qed
qed

text \<open>
  C4. With numeric counters, one call of \<open>updateProgress\<close> adds exactly one to
  \<open>dailyProgress\<close>. If the new progress has reached the goal and the goal was not met
  yet today, the streak grows by one, the goal counts as met and the celebration is
  shown; otherwise streak, goal-met flag and celebration stay as they are (so with the
  goal already met the progress still grows but the streak does not). Over any number
  of calls on the same day the streak grows by at most one, and not at all once the goal
  is met.
\<close>

theorem updateProgress_advances:
  assumes "dailyProgress a = Num p" and "dailyGoal a = Num g" and "streak a = Num s"
  shows "dailyProgress (updateProgress clk a) = Num (p + 1)
     \<and> (if g \<le> p + 1 \<and> \<not> goalMetToday a
        then streak (updateProgress clk a) = Num (s + 1)
           \<and> goalMetToday (updateProgress clk a) \<and> showCelebration (updateProgress clk a)
        else streak (updateProgress clk a) = Num s
           \<and> goalMetToday (updateProgress clk a) = goalMetToday a
           \<and> showCelebration (updateProgress clk a) = showCelebration a)
     \<and> (streak ((updateProgress clk ^^ n) a) = Num s
          \<or> streak ((updateProgress clk ^^ n) a) = Num (s + 1))
     \<and> (goalMetToday a \<longrightarrow> streak ((updateProgress clk ^^ n) a) = Num s)"
proof -
  have "dailyProgress (updateProgress clk a) = Num (p + 1)"
    using updateProgress_step(1) [OF assms] .
  moreover have "if g \<le> p + 1 \<and> \<not> goalMetToday a
        then streak (updateProgress clk a) = Num (s + 1)
           \<and> goalMetToday (updateProgress clk a) \<and> showCelebration (updateProgress clk a)
        else streak (updateProgress clk a) = Num s
           \<and> goalMetToday (updateProgress clk a) = goalMetToday a
           \<and> showCelebration (updateProgress clk a) = showCelebration a"
    using updateProgress_step(3,4) [OF assms]
    by (cases "g \<le> p + 1 \<and> \<not> goalMetToday a") simp_all
  moreover have "streak ((updateProgress clk ^^ n) a) = Num s
          \<or> streak ((updateProgress clk ^^ n) a) = Num (s + 1)"
    using updateProgress_iter_streak [OF assms] .
  moreover have "goalMetToday a \<longrightarrow> streak ((updateProgress clk ^^ n) a) = Num s"
    using updateProgress_iter_goal_met [where a = a and clk = clk and n = n] assms(3) by simp
  ultimately show ?thesis by blast
qed

theorem updateProgress_advances_witness:
  "dailyProgress nineOfTen = Num 9 \<and> dailyGoal nineOfTen = Num 10 \<and> streak nineOfTen = Num 4
   \<and> \<not> goalMetToday nineOfTen
   \<and> dailyProgress (updateProgress sampleClock nineOfTen) = Num 10
   \<and> streak (updateProgress sampleClock nineOfTen) = Num 5
   \<and> goalMetToday (updateProgress sampleClock nineOfTen)
   \<and> showCelebration (updateProgress sampleClock nineOfTen)
   \<and> dailyProgress (updateProgress sampleClock (updateProgress sampleClock nineOfTen)) = Num 11
   \<and> streak (updateProgress sampleClock (updateProgress sampleClock nineOfTen)) = Num 5"
proof -
  have h: "dailyProgress nineOfTen = Num 9" "dailyGoal nineOfTen = Num 10"
    "streak nineOfTen = Num 4"
    by (simp_all add: nineOfTen_def initialState_def)
  have g: "\<not> goalMetToday nineOfTen"
    by (simp add: nineOfTen_def initialState_def)
  let ?b = "updateProgress sampleClock nineOfTen"
  have first: "dailyProgress ?b = Num 10 \<and> streak ?b = Num 5 \<and> goalMetToday ?b
      \<and> showCelebration ?b"
    using updateProgress_advances [OF h, of sampleClock 0] g by simp
  have goal: "dailyGoal ?b = Num 10"
    using updateProgress_step(2) [OF h] .
  have second: "dailyProgress (updateProgress sampleClock ?b) = Num 11
      \<and> streak (updateProgress sampleClock ?b) = Num 5"
    using updateProgress_advances [of ?b 10 10 5 sampleClock 0] first goal by simp
  show ?thesis
    using h g first second by simp
qed

section \<open>Properties of loading the progress\<close>


lemma parseInt_3: "parseInt (str ''3'') = Num 3"
  by (simp add: parseInt_def str_def isWhiteSpace_def isDigit_def digitsValue_def)





text \<open>The streak after loading: on a new day it is reset when the time since the
  midnight of the last active day, rounded up to days, exceeds one and the goal was not
  met.\<close>

lemma streak_loadProgress:
  "streak (loadProgress clk a) =
     (let savedStreak = parseInt (orElse (localStorage a STORAGE_KEY_STREAK) (str ''0''));
          savedGoalMet = (localStorage a STORAGE_KEY_GOAL_MET = Some (str ''true''))
      in case localStorage a STORAGE_KEY_LAST_DATE of
           None \<Rightarrow> Num 0
         | Some d \<Rightarrow>
             if d = toDateString clk then savedStreak
             else if d = [] then Num 0
             else if num_gt (num_ceil_div (num_abs (num_sub (Num (getTime clk)) (dateGetTime clk d)))
                       86400000) (Num 1) \<and> \<not> savedGoalMet
             then Num 0 else savedStreak)"
  by (simp add: loadProgress_def Let_def split: option.split)




text \<open>
  C5 at a gap of exactly one calendar day. The last active day is Sunday 1 November, its
  goal not met, the streak 3; the application is opened on Monday 2 November at 10:00.
  One calendar day has passed, but the 34 hours since Sunday's midnight round up to two
  days, and the streak is reset to 0, in memory and in the store.
\<close>

theorem rollover_after_one_day_resets_streak:
  "localStorage (initialState sampleEnv yesterdayStorage) STORAGE_KEY_LAST_DATE
     = Some (str ''Sun Nov 01 2026'')
   \<and> dateGetTime sampleClock (str ''Sun Nov 01 2026'') = Num 1793491200000
   \<and> getTime sampleClock div 86400000 - 1793491200000 div 86400000 = 1
   \<and> streak (loadProgress sampleClock (initialState sampleEnv yesterdayStorage)) = Num 0
   \<and> localStorage (loadProgress sampleClock (initialState sampleEnv yesterdayStorage))
        STORAGE_KEY_STREAK = Some (str ''0'')"
  apply (simp add: streak_loadProgress)
  apply (simp add: loadProgress_def Let_def initialState_def yesterdayStorage_def
      sampleClock_def emptyStorage_def setItem_def parseInt_3 orElse_def)
  apply (simp add: str_def)
  done

section \<open>Properties of the round selector\<close>


lemma find_map_Suc: "find P (map Suc ks) = map_option Suc (find (\<lambda>k. P (Suc k)) ks)"
  by (induction ks) auto

lemma firstReaching_Cons:
  "firstReaching (w # ws) r =
     (if r - w \<le> 0 then Some 0 else map_option Suc (firstReaching ws (r - w)))"
proof -
  have upt: "[0..<length (w # ws)] = 0 # map Suc [0..<length ws]"
    by (simp add: upt_conv_Cons map_Suc_upt del: upt_Suc)
  have pred: "(\<lambda>k. r \<le> w + sum_list (take (Suc k) ws)) = (\<lambda>k. r - w \<le> sum_list (take (Suc k) ws))"
    by (rule ext) auto
  show ?thesis
    unfolding firstReaching_def upt
    by (simp add: find_map_Suc pred del: upt_Suc)
qed

lemma firstReaching_bound: "firstReaching ws r = Some k \<Longrightarrow> k < length ws"
  by (auto simp add: firstReaching_def find_Some_iff)


lemma walk_firstReaching:
  "walk items r target =
     (case firstReaching (map snd items) r of
        Some k \<Rightarrow> Some (fst (items ! k))
      | None \<Rightarrow> target)"
proof (induction items arbitrary: r)
  case Nil
  show ?case by (simp add: firstReaching_def)
next
  case (Cons e rest)
  show ?case
    by (simp add: firstReaching_Cons Cons.IH Let_def split: option.split)
qed

lemma totalWeight_sum: "totalWeight items = sum_list (map snd items)"
proof -
  have "foldl (\<lambda>sum x. sum + snd x) acc items = acc + sum_list (map snd items)" for acc
    by (induction items arbitrary: acc) simp_all
  then show ?thesis by (simp add: totalWeight_def)
qed

lemma weights_of_items:
  "map snd (itemsWithWeights stats currentList)
     = map (\<lambda>item. weight (statOf stats (char item))) currentList"
  by (simp add: itemsWithWeights_def comp_def)

lemma item_of_items:
  "k < length currentList \<Longrightarrow> fst (itemsWithWeights stats currentList ! k) = currentList ! k"
  by (simp add: itemsWithWeights_def)

lemma selectTarget_eq:
  assumes "currentList \<noteq> []"
  shows "selectTarget rnd stats currentList =
     Some (case firstReaching (map (\<lambda>item. weight (statOf stats (char item))) currentList)
                  (randomTimes rnd
                     (sum_list (map (\<lambda>item. weight (statOf stats (char item))) currentList))) of
             Some k \<Rightarrow> currentList ! k
           | None \<Rightarrow> currentList ! 0)"
proof -
  let ?ws = "map (\<lambda>item. weight (statOf stats (char item))) currentList"
  let ?r = "randomTimes rnd (sum_list ?ws)"
  have first: "at_index currentList 0 = Some (currentList ! 0)"
    using assms by (simp add: at_index_def)
  show ?thesis
  proof (cases "firstReaching ?ws ?r")
    case None
    then show ?thesis
      by (simp add: selectTarget_def Let_def walk_firstReaching totalWeight_sum
          weights_of_items first)
  next
    case (Some k)
    then have "k < length currentList"
      using firstReaching_bound [OF Some] by simp
    with Some show ?thesis
      by (simp add: selectTarget_def Let_def walk_firstReaching totalWeight_sum
          weights_of_items item_of_items)
  qed
qed

lemma selectTarget_member:
  assumes "currentList \<noteq> []"
  shows "\<exists>t. selectTarget rnd stats currentList = Some t \<and> t \<in> set currentList"
proof -
  let ?ws = "map (\<lambda>item. weight (statOf stats (char item))) currentList"
  let ?r = "randomTimes rnd (sum_list ?ws)"
  show ?thesis
  proof (cases "firstReaching ?ws ?r")
    case None
    then show ?thesis
      using assms selectTarget_eq [OF assms, of rnd stats] by (simp add: hd_conv_nth [symmetric])
  next
    case (Some k)
    then have "k < length currentList"
      using firstReaching_bound [OF Some] by simp
    with Some show ?thesis
      using selectTarget_eq [OF assms, of rnd stats] by simp
  qed
qed


lemma length_filter_other_chars:
  "distinct (map f xs) \<Longrightarrow> x \<in> set xs \<Longrightarrow>
     length (filter (\<lambda>w. f w \<noteq> f x) xs) = length xs - 1"
proof (induction xs)
  case Nil
  then show ?case by simp
next
  case (Cons y ys)
  show ?case
  proof (cases "f y = f x")
    case True
    from Cons.prems have "f y \<notin> f ` set ys" by simp
    with True have "f x \<notin> f ` set ys" by simp
    then have "\<forall>w \<in> set ys. f w \<noteq> f x" by (metis imageI)
    then have "filter (\<lambda>w. f w \<noteq> f x) ys = ys" by (simp add: filter_id_conv)
    with True show ?thesis by simp
  next
    case False
    with Cons.prems have "x \<in> set ys" by auto
    then have "ys \<noteq> []" by auto
    with False Cons \<open>x \<in> set ys\<close> show ?thesis by (cases ys) auto
  qed
qed

lemma pickDistractors_two:
  "char d1 \<noteq> char d2 \<Longrightarrow>
     pickDistractors (d1 # d2 # rest) [] {} = ([d1, d2], {char d2, char d1})"
  by (simp add: insert_commute)

lemma fillDistractors_enough:
  "length selected = 2 \<Longrightarrow>
     fillDistractors us currentList target selected usedChars = Some selected"
  by (cases us) simp_all

text \<open>
  C6. For an active pool of at least three items with pairwise distinct chars, and every
  outcome of the random draws (the two shuffles being permutations), \<open>setupRound\<close>
  completes, whatever draws are supplied for the filling loop, and the round it sets has
  exactly three options, all of them items of the pool, among them the target, with
  pairwise distinct chars.
\<close>

theorem setupRound_three_distinct_options:
  assumes len: "3 \<le> length (wordList a)"
    and dist: "distinct (map char (wordList a))"
    and sh1: "\<forall>xs. mset (shuffleDistractors rnd xs) = mset xs"
    and sh2: "\<forall>xs. mset (shuffleOptions rnd xs) = mset xs"
  shows "\<exists>a' t. setupRound rnd a = Some a' \<and> targetWord a' = Some t
           \<and> t \<in> set (wordList a)
           \<and> length (currentOptions a') = 3
           \<and> t \<in> set (currentOptions a')
           \<and> set (currentOptions a') \<subseteq> set (wordList a)
           \<and> distinct (map char (currentOptions a'))"
proof -
  let ?l = "wordList a"
  have ne: "?l \<noteq> []" using len by auto
  obtain t where t: "selectTarget rnd (wordStats a) ?l = Some t" and t_in: "t \<in> set ?l"
    using selectTarget_member [OF ne] by blast
  let ?pd = "filter (\<lambda>w. char w \<noteq> char t) ?l"
  let ?sd = "shuffleDistractors rnd ?pd"
  have m: "mset ?sd = mset ?pd" using sh1 by blast
  have "length ?pd = length ?l - 1"
    using length_filter_other_chars [OF dist t_in] .
  then have "2 \<le> length ?sd"
    using len mset_eq_length [OF m] by simp
  then obtain d1 d2 rest where sd: "?sd = d1 # d2 # rest"
    by (cases ?sd; cases "tl ?sd") auto
  have "distinct (map char ?pd)"
    using dist by (rule distinct_map_filter)
  moreover have "mset (map char ?sd) = mset (map char ?pd)"
    using m by (metis mset_map)
  ultimately have "distinct (map char ?sd)"
    using mset_eq_imp_distinct_iff by blast
  then have d12: "char d1 \<noteq> char d2"
    using sd by auto
  have "set ?sd = set ?pd"
    using m by (rule mset_eq_setD)
  then have in_pd: "d1 \<in> set ?pd" "d2 \<in> set ?pd"
    using sd by auto
  then have d1t: "char d1 \<noteq> char t" and d2t: "char d2 \<noteq> char t"
    and d_in: "d1 \<in> set ?l" "d2 \<in> set ?l"
    by auto
  let ?opts = "shuffleOptions rnd [t, d1, d2]"
  let ?a' = "a\<lparr>targetWord := Some t, currentOptions := ?opts, feedback := none\<rparr>"
  have res: "setupRound rnd a = Some ?a'"
    using ne t sd pickDistractors_two [OF d12, of rest]
    by (simp add: setupRound_def Let_def fillDistractors_enough)
  have mo: "mset ?opts = mset [t, d1, d2]" using sh2 by blast
  have lo: "length ?opts = 3"
    using mset_eq_length [OF mo] by simp
  have so: "set ?opts = {t, d1, d2}"
    using mset_eq_setD [OF mo] by simp
  have "mset (map char ?opts) = mset (map char [t, d1, d2])"
    using mo by (metis mset_map)
  moreover have "distinct (map char [t, d1, d2])"
    using d12 d1t d2t by auto
  ultimately have disto: "distinct (map char ?opts)"
    using mset_eq_imp_distinct_iff by blast
  show ?thesis
    using res lo so disto t_in d_in by auto
qed

theorem setupRound_three_distinct_options_witness:
  "3 \<le> length (wordList playingA) \<and> distinct (map char (wordList playingA))
   \<and> (\<forall>xs. mset (shuffleDistractors sampleRandom xs) = mset xs)
   \<and> (\<forall>xs. mset (shuffleOptions sampleRandom xs) = mset xs)
   \<and> map_option targetWord (setupRound sampleRandom playingA) = Some (Some itemB)
   \<and> map_option currentOptions (setupRound sampleRandom playingA)
       = Some [itemA, itemC, itemB]"
proof -
  have h1: "3 \<le> length (wordList playingA)"
    by (simp add: playingA_def)
  have h2: "distinct (map char (wordList playingA))"
    by (simp add: playingA_def itemA_def itemB_def itemC_def str_def)
  have h3: "\<forall>xs. mset (shuffleDistractors sampleRandom xs) = mset xs"
    by (simp add: sampleRandom_def)
  have h4: "\<forall>xs. mset (shuffleOptions sampleRandom xs) = mset xs"
    by (simp add: sampleRandom_def)
  have chars: "char itemA \<noteq> char itemB" "char itemC \<noteq> char itemB" "char itemC \<noteq> char itemA"
    by (simp_all add: itemA_def itemB_def itemC_def str_def)
  have target: "selectTarget sampleRandom [] [itemA, itemB, itemC] = Some itemB"
    by (simp add: selectTarget_def itemsWithWeights_def totalWeight_def sampleRandom_def
        statOf_def zeroStat_def weight_def at_index_def Let_def)
  have run: "setupRound sampleRandom playingA
      = Some (playingA\<lparr>targetWord := Some itemB, currentOptions := [itemA, itemC, itemB],
                       feedback := none\<rparr>)"
    using chars target
    by (simp add: setupRound_def playingA_def initialState_def Let_def sampleRandom_def)
  show ?thesis
    using h1 h2 h3 h4 run setupRound_three_distinct_options [OF h1 h2 h3 h4]
    by simp
qed

lemma targetWord_setupRound:
  "wordList a \<noteq> [] \<Longrightarrow> setupRound rnd a = Some a' \<Longrightarrow>
     targetWord a' = selectTarget rnd (wordStats a) (wordList a)"
  by (auto simp add: setupRound_def Let_def split: option.splits prod.splits)


lemma weights_no_stats:
  "map (\<lambda>item. weight (statOf [] (char item))) [itemA, itemB, itemC] = [10, 10, 10]"
  by (simp add: weight_def statOf_def zeroStat_def)



section \<open>Properties of the answer evaluator\<close>




lemma parse_after_decoy:
  "parseInputData (join_lines [str ''a:x'', str ''b:y'', str ''c:z''])
   = [\<lparr>id' = str ''word-a-0'', char = str ''a'', word = str ''x''\<rparr>,
      \<lparr>id' = str ''word-b-1'', char = str ''b'', word = str ''y''\<rparr>,
      \<lparr>id' = str ''word-c-2'', char = str ''c'', word = str ''z''\<rparr>]"
  by (simp add: parseInputData_def str_def isNewline_def parseLine_def
      isSeparator_def trim_def isWhiteSpace_def Let_def digits.simps)




section \<open>Properties of the import\<close>


lemma getProp_JNull: "getProp JNull name = None"
  by (simp add: getProp_def)


lemma handleFileChange_data:
  "dataOf content = Some d \<Longrightarrow>
     handleFileChange env clk content a =
       (case restore env d restoreFields (localStorage a) of
          (ls, Some e) \<Rightarrow> (a\<lparr>localStorage := ls\<rparr>, Some e)
        | (ls, None) \<Rightarrow>
            (loadStats env (loadProgress clk (loadContent env (a\<lparr>localStorage := ls\<rparr>))), None))"
  by (auto simp add: dataOf_def handleFileChange_def getProp_JNull
      split: option.splits if_splits)







lemma localStorage_loads:
  "localStorage (loadStats env a) = localStorage a"
  "localStorage (loadContent env a) = localStorage a"
  by (simp_all add: loadStats_def loadContent_def Let_def split: option.split)

lemma localStorage_loadProgress_today:
  "localStorage a STORAGE_KEY_LAST_DATE = Some (toDateString clk) \<Longrightarrow>
     localStorage (loadProgress clk a) = localStorage a"
  by (simp add: loadProgress_def Let_def split: option.split)

lemma localStorage_mount_today:
  "ls STORAGE_KEY_LAST_DATE = Some (toDateString clk) \<Longrightarrow>
     localStorage (mount env clk ls) = ls"
  by (simp add: mount_def localStorage_loads localStorage_loadProgress_today initialState_def)

lemma today_is_today: "todayStorage STORAGE_KEY_LAST_DATE = Some (toDateString sampleClock)"
  by (simp add: todayStorage_def sampleClock_def)

lemma localStorage_mount_todayStorage:
  "localStorage (mount env sampleClock todayStorage) = todayStorage"
  by (rule localStorage_mount_today [where ls = todayStorage and clk = sampleClock])
     (rule today_is_today)


text \<open>A member that does not convert (here \<open>totalScore: null\<close>, whose \<open>toString\<close>
  call throws) aborts the import after the members before it are written.\<close>

lemma import_aborted_midway:
  "handleFileChange sampleEnv sampleClock (Some nullScoreBackup)
       (mount sampleEnv sampleClock todayStorage)
     = ((mount sampleEnv sampleClock todayStorage)
          \<lparr>localStorage := todayStorage(STORAGE_KEY_INPUT \<mapsto> str ''q:r'')\<rparr>,
        Some TypeError)"
proof -
  let ?a = "mount sampleEnv sampleClock todayStorage"
  have ls: "localStorage ?a = todayStorage"
    by (rule localStorage_mount_todayStorage)
  have d: "dataOf (Some nullScoreBackup)
      = Some (JObj [(str ''input'', JStr (str ''q:r'')), (str ''totalScore'', JNull)])"
    by (simp add: dataOf_def nullScoreBackup_def getProp_def json_truthy_def str_def)
  have r: "restore env (JObj [(str ''input'', JStr (str ''q:r'')), (str ''totalScore'', JNull)])
             restoreFields ls
      = (setItem STORAGE_KEY_INPUT (str ''q:r'') ls, Some TypeError)" for env ls
    by (simp add: restoreFields_def getProp_def convert_def callToString_def str_def)
  show ?thesis
    using handleFileChange_data [OF d, of sampleEnv sampleClock ?a]
    by (simp add: r ls setItem_def)
qed


section \<open>Properties of the backup round trip\<close>


lemma digits_isDigit: "c \<in> set (digits n) \<Longrightarrow> isDigit c"
proof (induction n arbitrary: c rule: digits.induct)
  case (1 n)
  show ?case
  proof (cases "n < 10")
    case True
    with "1.prems" show ?thesis
      by (subst (asm) digits.simps) (simp add: isDigit_def)
  next
    case False
    have "n mod 10 < 10" by simp
    then have "isDigit (48 + n mod 10)" by (simp add: isDigit_def)
    with False "1.prems" "1.IH" show ?thesis
      by (subst (asm) digits.simps) auto
  qed
qed

lemma digits_not_Nil: "digits n \<noteq> []"
  by (subst digits.simps) simp

lemma digitsValue_digits: "digitsValue (digits n) = n"
proof (induction n rule: digits.induct)
  case (1 n)
  show ?case
  proof (cases "n < 10")
    case True
    then show ?thesis
      by (subst digits.simps) (simp add: digitsValue_def)
  next
    case False
    with "1.IH" have "digitsValue (digits (n div 10)) = n div 10" by simp
    with False show ?thesis
      by (subst digits.simps) (simp add: digitsValue_def)
  qed
qed

lemma isDigit_not_space: "isDigit c \<Longrightarrow> \<not> isWhiteSpace c \<and> c \<noteq> 45 \<and> c \<noteq> 43"
  by (auto simp add: isDigit_def isWhiteSpace_def)

lemma parseInt_digits: "parseInt (digits n) = Num (int n)"
proof -
  obtain c cs where d: "digits n = c # cs"
    using digits_not_Nil [of n] by (cases "digits n") auto
  have c: "isDigit c" using digits_isDigit [of c n] d by simp
  have all: "takeWhile isDigit (c # cs) = c # cs"
    using digits_isDigit [of _ n] d by (simp add: takeWhile_eq_all_conv)
  have v: "digitsValue (c # cs) = n"
    using digitsValue_digits [of n] d by simp
  show ?thesis
    using isDigit_not_space [OF c] v
    by (simp add: parseInt_def d Let_def all del: takeWhile.simps)
qed

lemma parseInt_minus_digits: "parseInt (45 # digits n) = Num (- int n)"
proof -
  have ws: "\<not> isWhiteSpace 45" by (simp add: isWhiteSpace_def)
  have all: "takeWhile isDigit (digits n) = digits n"
    using digits_isDigit [of _ n] by (simp add: takeWhile_eq_all_conv)
  show ?thesis
    using ws digits_not_Nil [of n] digitsValue_digits [of n]
    by (simp add: parseInt_def Let_def all)
qed

lemma parseInt_num_toString: "parseInt (num_toString (Num i)) = Num i"
  by (simp add: parseInt_digits parseInt_minus_digits)

lemma num_toString_not_Nil: "num_toString (Num i) \<noteq> []"
  by (simp add: digits_not_Nil)


lemma handleExportData_data:
  "handleExportData env ls = Some doc \<Longrightarrow>
     dataOf (Some doc) =
       Some (exportedData
         (orElse (ls STORAGE_KEY_INPUT) (DEFAULT_DATA env))
         (orElse (ls STORAGE_KEY_LEARNED) [])
         (the (JSON_parse env (orElse (ls STORAGE_KEY_STATS) (str ''{}''))))
         (jsonOfNum (parseInt (orElse (ls STORAGE_KEY_TOTAL_SCORE) (str ''0''))))
         (jsonOfNum (parseInt (orElse (ls STORAGE_KEY_STREAK) (str ''0''))))
         (jsonOfNum (parseInt (orElse (ls STORAGE_KEY_GOAL) (str ''10''))))
         (jsonOfNum (parseInt (orElse (ls STORAGE_KEY_PROGRESS) (str ''0''))))
         (jsonOfItem (ls STORAGE_KEY_LAST_DATE))
         (jsonOfItem (ls STORAGE_KEY_GOAL_MET)))"
  by (auto simp add: handleExportData_def dataOf_def exportedData_def getProp_def json_truthy_def
      str_def split: option.splits)

lemma handleExportData_Some:
  "JSON_parse env (orElse (ls STORAGE_KEY_STATS) (str ''{}'')) \<noteq> None \<Longrightarrow>
     handleExportData env ls \<noteq> None"
  by (auto simp add: handleExportData_def split: option.splits)

lemma getProp_exportedData:
  "getProp (exportedData i l v n1 n2 n3 n4 dt g) ''input'' = Some (JStr i)"
  "getProp (exportedData i l v n1 n2 n3 n4 dt g) ''learned'' = Some (JStr l)"
  "getProp (exportedData i l v n1 n2 n3 n4 dt g) ''stats'' = Some v"
  "getProp (exportedData i l v n1 n2 n3 n4 dt g) ''totalScore'' = Some n1"
  "getProp (exportedData i l v n1 n2 n3 n4 dt g) ''streak'' = Some n2"
  "getProp (exportedData i l v n1 n2 n3 n4 dt g) ''dailyGoal'' = Some n3"
  "getProp (exportedData i l v n1 n2 n3 n4 dt g) ''dailyProgress'' = Some n4"
  "getProp (exportedData i l v n1 n2 n3 n4 dt g) ''lastDate'' = Some dt"
  "getProp (exportedData i l v n1 n2 n3 n4 dt g) ''goalMet'' = Some g"
  by (simp_all add: getProp_def exportedData_def str_def)

lemma restore_exportedData:
  "restore env (exportedData i l v (JNum n1) (JNum n2) (JNum n3) (JNum n4) (JStr dt) (JStr g))
       restoreFields ls0
     = (setItem STORAGE_KEY_GOAL_MET g
         (setItem STORAGE_KEY_LAST_DATE dt
           (setItem STORAGE_KEY_PROGRESS (num_toString (Num n4))
             (setItem STORAGE_KEY_GOAL (num_toString (Num n3))
               (setItem STORAGE_KEY_STREAK (num_toString (Num n2))
                 (setItem STORAGE_KEY_TOTAL_SCORE (num_toString (Num n1))
                   (setItem STORAGE_KEY_STATS (JSON_stringify env v)
                     (setItem STORAGE_KEY_LEARNED l
                       (setItem STORAGE_KEY_INPUT i ls0)))))))), None)"
  by (simp add: restoreFields_def getProp_exportedData convert_def callToString_def
      del: num_toString.simps)

lemma export_restore_identity:
  assumes "ls STORAGE_KEY_INPUT = Some i" and "i \<noteq> []"
    and "ls STORAGE_KEY_LEARNED = Some l"
    and "ls STORAGE_KEY_STATS = Some st" and "st \<noteq> []"
    and "JSON_parse env st = Some v" and "JSON_stringify env v = st"
    and "ls STORAGE_KEY_TOTAL_SCORE = Some (num_toString (Num n1))"
    and "ls STORAGE_KEY_STREAK = Some (num_toString (Num n2))"
    and "ls STORAGE_KEY_GOAL = Some (num_toString (Num n3))"
    and "ls STORAGE_KEY_PROGRESS = Some (num_toString (Num n4))"
    and "ls STORAGE_KEY_LAST_DATE = Some dt"
    and "ls STORAGE_KEY_GOAL_MET = Some g"
  shows "\<exists>doc d. handleExportData env ls = Some doc \<and> dataOf (Some doc) = Some d
           \<and> restore env d restoreFields ls0 = (ls, None)"
proof -
  have present: "orElse (Some s) d = s" if "s \<noteq> []" for s d
    using that by (simp add: orElse_def)
  have learned: "orElse (Some l) [] = l"
    by (simp add: orElse_def)
  have counter: "jsonOfNum (parseInt (orElse (Some (num_toString (Num n))) d)) = JNum n" for n d
    using present [OF num_toString_not_Nil, of n d]
    by (simp add: parseInt_num_toString jsonOfNum_def del: num_toString.simps)
  obtain doc where doc: "handleExportData env ls = Some doc"
    using handleExportData_Some [of env ls] assms(4,5,6) by (auto simp add: present)
  let ?d = "exportedData i l v (JNum n1) (JNum n2) (JNum n3) (JNum n4) (JStr dt) (JStr g)"
  have d: "dataOf (Some doc) = Some ?d"
    using handleExportData_data [OF doc] assms
    by (simp add: present learned counter jsonOfItem_def del: num_toString.simps)
  have "setItem STORAGE_KEY_GOAL_MET g
         (setItem STORAGE_KEY_LAST_DATE dt
           (setItem STORAGE_KEY_PROGRESS (num_toString (Num n4))
             (setItem STORAGE_KEY_GOAL (num_toString (Num n3))
               (setItem STORAGE_KEY_STREAK (num_toString (Num n2))
                 (setItem STORAGE_KEY_TOTAL_SCORE (num_toString (Num n1))
                   (setItem STORAGE_KEY_STATS (JSON_stringify env v)
                     (setItem STORAGE_KEY_LEARNED l
                       (setItem STORAGE_KEY_INPUT i ls0)))))))) = ls"
  proof (rule ext)
    fix k
    show "setItem STORAGE_KEY_GOAL_MET g
         (setItem STORAGE_KEY_LAST_DATE dt
           (setItem STORAGE_KEY_PROGRESS (num_toString (Num n4))
             (setItem STORAGE_KEY_GOAL (num_toString (Num n3))
               (setItem STORAGE_KEY_STREAK (num_toString (Num n2))
                 (setItem STORAGE_KEY_TOTAL_SCORE (num_toString (Num n1))
                   (setItem STORAGE_KEY_STATS (JSON_stringify env v)
                     (setItem STORAGE_KEY_LEARNED l
                       (setItem STORAGE_KEY_INPUT i ls0)))))))) k = ls k"
      using assms by (cases k) (simp_all add: setItem_def del: num_toString.simps)
  qed
  then have "restore env ?d restoreFields ls0 = (ls, None)"
    by (simp only: restore_exportedData)
  with doc d show ?thesis by blast
qed


text \<open>
  C9, as the code has it. Take a persisted store in which all nine keys are present,
  the input text is not empty, the statistics text is what \<open>JSON.stringify\<close> writes for
  the value that \<open>JSON.parse\<close> reads from it, the four counters are integers as
  \<open>toString\<close> writes them, and the last active date is today. Then the export succeeds,
  the import of the exported document reports no error, the store after the import is
  identical to the exported store, whatever the importing state held before, and the
  state in memory is the one reloaded from that store.
\<close>

theorem export_import_round_trip:
  assumes "ls STORAGE_KEY_INPUT = Some i" and "i \<noteq> []"
    and "ls STORAGE_KEY_LEARNED = Some l"
    and "ls STORAGE_KEY_STATS = Some st" and "st \<noteq> []"
    and "JSON_parse env st = Some v" and "JSON_stringify env v = st"
    and "ls STORAGE_KEY_TOTAL_SCORE = Some (num_toString (Num n1))"
    and "ls STORAGE_KEY_STREAK = Some (num_toString (Num n2))"
    and "ls STORAGE_KEY_GOAL = Some (num_toString (Num n3))"
    and "ls STORAGE_KEY_PROGRESS = Some (num_toString (Num n4))"
    and "ls STORAGE_KEY_LAST_DATE = Some (toDateString clk)"
    and "ls STORAGE_KEY_GOAL_MET = Some g"
  shows "\<exists>doc. handleExportData env ls = Some doc
           \<and> snd (handleFileChange env clk (Some doc) a) = None
           \<and> localStorage (fst (handleFileChange env clk (Some doc) a)) = ls
           \<and> fst (handleFileChange env clk (Some doc) a)
               = loadStats env (loadProgress clk (loadContent env (a\<lparr>localStorage := ls\<rparr>)))"
proof -
  obtain doc d where doc: "handleExportData env ls = Some doc"
    and d: "dataOf (Some doc) = Some d"
    and r: "restore env d restoreFields (localStorage a) = (ls, None)"
    using export_restore_identity [OF assms, of "localStorage a"] by blast
  have run: "handleFileChange env clk (Some doc) a
      = (loadStats env (loadProgress clk (loadContent env (a\<lparr>localStorage := ls\<rparr>))), None)"
    using handleFileChange_data [OF d, of env clk a] by (simp add: r)
  have "localStorage (loadContent env (a\<lparr>localStorage := ls\<rparr>)) STORAGE_KEY_LAST_DATE
      = Some (toDateString clk)"
    using assms(12) by (simp add: localStorage_loads)
  then have "localStorage (loadStats env (loadProgress clk (loadContent env (a\<lparr>localStorage := ls\<rparr>))))
      = ls"
    by (simp add: localStorage_loads localStorage_loadProgress_today)
  with doc run show ?thesis by simp
qed

lemma num_toString_samples:
  "num_toString (Num 7) = str ''7''" "num_toString (Num 3) = str ''3''"
  "num_toString (Num 10) = str ''10''" "num_toString (Num 4) = str ''4''"
  by (simp_all add: digits.simps str_def)

theorem export_import_round_trip_witness:
  "todayStorage STORAGE_KEY_INPUT = Some (join_lines [str ''a:x'', str ''b:y'', str ''c:z''])
   \<and> join_lines [str ''a:x'', str ''b:y'', str ''c:z''] \<noteq> []
   \<and> todayStorage STORAGE_KEY_STATS = Some (str ''{}'')
   \<and> JSON_parse sampleEnv (str ''{}'') = Some (JObj [])
   \<and> JSON_stringify sampleEnv (JObj []) = str ''{}''
   \<and> todayStorage STORAGE_KEY_LAST_DATE = Some (toDateString sampleClock)
   \<and> handleExportData sampleEnv todayStorage \<noteq> None
   \<and> snd (handleFileChange sampleEnv sampleClock (handleExportData sampleEnv todayStorage)
            (mount sampleEnv sampleClock todayStorage)) = None
   \<and> localStorage (fst (handleFileChange sampleEnv sampleClock
            (handleExportData sampleEnv todayStorage) (mount sampleEnv sampleClock todayStorage)))
       = todayStorage"
proof -
  have h1: "todayStorage STORAGE_KEY_INPUT = Some (join_lines [str ''a:x'', str ''b:y'', str ''c:z''])"
    and h3: "todayStorage STORAGE_KEY_LEARNED = Some (str ''d:w'')"
    and h4: "todayStorage STORAGE_KEY_STATS = Some (str ''{}'')"
    and h8: "todayStorage STORAGE_KEY_TOTAL_SCORE = Some (num_toString (Num 7))"
    and h9: "todayStorage STORAGE_KEY_STREAK = Some (num_toString (Num 3))"
    and h10: "todayStorage STORAGE_KEY_GOAL = Some (num_toString (Num 10))"
    and h11: "todayStorage STORAGE_KEY_PROGRESS = Some (num_toString (Num 4))"
    and h13: "todayStorage STORAGE_KEY_GOAL_MET = Some (str ''false'')"
    by (simp_all only: num_toString_samples) (simp_all add: todayStorage_def)
  have h2: "join_lines [str ''a:x'', str ''b:y'', str ''c:z''] \<noteq> []"
    and h5: "str ''{}'' \<noteq> []"
    by (simp_all add: str_def)
  have h6: "JSON_parse sampleEnv (str ''{}'') = Some (JObj [])"
    and h7: "JSON_stringify sampleEnv (JObj []) = str ''{}''"
    by (simp_all add: sampleEnv_def str_def)
  note rt = export_import_round_trip
    [OF h1 h2 h3 h4 h5 h6 h7 h8 h9 h10 h11 today_is_today h13,
      of "mount sampleEnv sampleClock todayStorage"]
  show ?thesis
    using h1 h2 h4 h6 h7 today_is_today rt by auto
qed

text \<open>
  C9 as stated fails on other stores. With an empty input text the export writes the
  default content in its place: after the round trip the store holds the default
  content and the pool has its three items, where it had none. Without a streak key the
  export writes 0, and after the round trip the store has the key.
\<close>

theorem export_import_changes_store:
  "clearedStorage STORAGE_KEY_INPUT = Some []
   \<and> wordList (mount sampleEnv sampleClock clearedStorage) = []
   \<and> handleExportData sampleEnv clearedStorage \<noteq> None
   \<and> snd (handleFileChange sampleEnv sampleClock (handleExportData sampleEnv clearedStorage)
            (mount sampleEnv sampleClock clearedStorage)) = None
   \<and> localStorage (fst (handleFileChange sampleEnv sampleClock
            (handleExportData sampleEnv clearedStorage) (mount sampleEnv sampleClock clearedStorage)))
        STORAGE_KEY_INPUT = Some (DEFAULT_DATA sampleEnv)
   \<and> wordList (fst (handleFileChange sampleEnv sampleClock
            (handleExportData sampleEnv clearedStorage) (mount sampleEnv sampleClock clearedStorage)))
       = [itemA, itemB, itemC]
   \<and> unstreakedStorage STORAGE_KEY_STREAK = None
   \<and> localStorage (fst (handleFileChange sampleEnv sampleClock
            (handleExportData sampleEnv unstreakedStorage)
            (mount sampleEnv sampleClock unstreakedStorage)))
        STORAGE_KEY_STREAK = Some (str ''0'')"
proof -
  let ?c = "mount sampleEnv sampleClock clearedStorage"
  let ?u = "mount sampleEnv sampleClock unstreakedStorage"
  have parse: "JSON_parse sampleEnv (str ''{}'') = Some (JObj [])"
    by (simp add: sampleEnv_def)
  have nums: "parseInt (str ''7'') = Num 7" "parseInt (str ''3'') = Num 3"
    "parseInt (str ''10'') = Num 10" "parseInt (str ''4'') = Num 4" "parseInt (str ''0'') = Num 0"
    by (simp_all add: parseInt_def str_def isWhiteSpace_def isDigit_def digitsValue_def)
  have strs: "orElse (Some (str ''7'')) d = str ''7''" "orElse (Some (str ''3'')) d = str ''3''"
    "orElse (Some (str ''10'')) d = str ''10''" "orElse (Some (str ''4'')) d = str ''4''"
    "orElse (Some (str ''{}'')) d = str ''{}''" "orElse (Some (str ''d:w'')) d = str ''d:w''"
    "orElse (Some []) d = d" "orElse None d = d"
    "orElse (Some (join_lines [str ''a:x'', str ''b:y'', str ''c:z''])) d
       = join_lines [str ''a:x'', str ''b:y'', str ''c:z'']" for d
    by (simp_all add: orElse_def str_def)
  have cleared: "clearedStorage STORAGE_KEY_INPUT = Some []"
    "clearedStorage STORAGE_KEY_LEARNED = Some (str ''d:w'')"
    "clearedStorage STORAGE_KEY_STATS = Some (str ''{}'')"
    "clearedStorage STORAGE_KEY_TOTAL_SCORE = Some (str ''7'')"
    "clearedStorage STORAGE_KEY_STREAK = Some (str ''3'')"
    "clearedStorage STORAGE_KEY_GOAL = Some (str ''10'')"
    "clearedStorage STORAGE_KEY_PROGRESS = Some (str ''4'')"
    "clearedStorage STORAGE_KEY_LAST_DATE = Some (toDateString sampleClock)"
    "clearedStorage STORAGE_KEY_GOAL_MET = Some (str ''false'')"
    by (simp_all add: clearedStorage_def todayStorage_def sampleClock_def)
  have unstreaked: "unstreakedStorage STORAGE_KEY_INPUT
      = Some (join_lines [str ''a:x'', str ''b:y'', str ''c:z''])"
    "unstreakedStorage STORAGE_KEY_LEARNED = Some (str ''d:w'')"
    "unstreakedStorage STORAGE_KEY_STATS = Some (str ''{}'')"
    "unstreakedStorage STORAGE_KEY_TOTAL_SCORE = Some (str ''7'')"
    "unstreakedStorage STORAGE_KEY_STREAK = None"
    "unstreakedStorage STORAGE_KEY_GOAL = Some (str ''10'')"
    "unstreakedStorage STORAGE_KEY_PROGRESS = Some (str ''4'')"
    "unstreakedStorage STORAGE_KEY_LAST_DATE = Some (toDateString sampleClock)"
    "unstreakedStorage STORAGE_KEY_GOAL_MET = Some (str ''false'')"
    by (simp_all add: unstreakedStorage_def todayStorage_def sampleClock_def)
  have ec: "handleExportData sampleEnv clearedStorage \<noteq> None"
    by (rule handleExportData_Some) (simp add: cleared strs parse)
  have eu: "handleExportData sampleEnv unstreakedStorage \<noteq> None"
    by (rule handleExportData_Some) (simp add: unstreaked strs parse)
  obtain dc where dc: "handleExportData sampleEnv clearedStorage = Some dc"
    using ec by blast
  obtain du where du: "handleExportData sampleEnv unstreakedStorage = Some du"
    using eu by blast
  have data_c: "dataOf (Some dc)
      = Some (exportedData (DEFAULT_DATA sampleEnv) (str ''d:w'') (JObj []) (JNum 7) (JNum 3)
                (JNum 10) (JNum 4) (JStr (toDateString sampleClock)) (JStr (str ''false'')))"
    using handleExportData_data [OF dc]
    by (simp add: cleared strs parse nums jsonOfNum_def jsonOfItem_def)
  have data_u: "dataOf (Some du)
      = Some (exportedData (join_lines [str ''a:x'', str ''b:y'', str ''c:z'']) (str ''d:w'')
                (JObj []) (JNum 7) (JNum 0) (JNum 10) (JNum 4)
                (JStr (toDateString sampleClock)) (JStr (str ''false'')))"
    using handleExportData_data [OF du]
    by (simp only: unstreaked strs parse nums jsonOfNum_def jsonOfItem_def option.sel
        option.case jsnum.case)
  have store_after: "localStorage (loadStats env (loadProgress sampleClock (loadContent env
        (a\<lparr>localStorage := setItem STORAGE_KEY_GOAL_MET g
           (setItem STORAGE_KEY_LAST_DATE (toDateString sampleClock) ls)\<rparr>)))) k
      = setItem STORAGE_KEY_GOAL_MET g (setItem STORAGE_KEY_LAST_DATE (toDateString sampleClock) ls) k"
    for env a g ls k
    by (simp add: localStorage_loads localStorage_loadProgress_today setItem_def)
  have w1: "wordList (loadStats env a) = wordList a" for env a
    by (simp add: loadStats_def split: option.split)
  have w2: "wordList (loadProgress clk a) = wordList a" for clk a
    by (simp add: loadProgress_def Let_def split: option.split)
  have w3: "wordList (loadContent env a)
      = parseInputData (case localStorage a STORAGE_KEY_INPUT of
                          None \<Rightarrow> DEFAULT_DATA env | Some s \<Rightarrow> s)" for env a
    by (simp add: loadContent_def Let_def split: option.split)
  have words_after: "wordList (loadStats env (loadProgress clk (loadContent env a)))
      = parseInputData (case localStorage a STORAGE_KEY_INPUT of
                          None \<Rightarrow> DEFAULT_DATA env | Some s \<Rightarrow> s)"
    for env clk a
    by (simp only: w1 w2 w3)
  have run_c: "handleFileChange sampleEnv sampleClock (Some dc) ?c
      = (loadStats sampleEnv (loadProgress sampleClock (loadContent sampleEnv
           (?c\<lparr>localStorage := fst (restore sampleEnv (the (dataOf (Some dc))) restoreFields
                                     (localStorage ?c))\<rparr>))), None)"
    using handleFileChange_data [OF data_c, of sampleEnv sampleClock ?c]
    by (simp add: data_c restore_exportedData del: num_toString.simps)
  have run_u: "handleFileChange sampleEnv sampleClock (Some du) ?u
      = (loadStats sampleEnv (loadProgress sampleClock (loadContent sampleEnv
           (?u\<lparr>localStorage := fst (restore sampleEnv (the (dataOf (Some du))) restoreFields
                                     (localStorage ?u))\<rparr>))), None)"
    using handleFileChange_data [OF data_u, of sampleEnv sampleClock ?u]
    by (simp add: data_u restore_exportedData del: num_toString.simps)
  have c1: "clearedStorage STORAGE_KEY_INPUT = Some []"
    by (rule cleared(1))
  have "localStorage (loadStats sampleEnv (loadProgress sampleClock
        (initialState sampleEnv clearedStorage))) STORAGE_KEY_INPUT = Some []"
    using cleared(8) by (simp add: localStorage_loads localStorage_loadProgress_today
        initialState_def cleared(1))
  then have c2: "wordList ?c = []"
    by (simp add: mount_def w3 parseInputData_def)
  have c4: "snd (handleFileChange sampleEnv sampleClock (handleExportData sampleEnv clearedStorage) ?c)
      = None"
    by (simp add: dc run_c)
  have c5: "localStorage (fst (handleFileChange sampleEnv sampleClock
        (handleExportData sampleEnv clearedStorage) ?c)) STORAGE_KEY_INPUT
      = Some (DEFAULT_DATA sampleEnv)"
    by (simp add: dc run_c data_c restore_exportedData store_after del: num_toString.simps)
       (simp add: setItem_def)
  have c6: "wordList (fst (handleFileChange sampleEnv sampleClock
        (handleExportData sampleEnv clearedStorage) ?c)) = [itemA, itemB, itemC]"
    by (simp add: dc run_c data_c restore_exportedData words_after del: num_toString.simps)
       (simp add: setItem_def sampleEnv_def parse_after_decoy itemA_def itemB_def itemC_def
          del: join_lines.simps)
  have c7: "unstreakedStorage STORAGE_KEY_STREAK = None"
    by (rule unstreaked(5))
  have c8: "localStorage (fst (handleFileChange sampleEnv sampleClock
        (handleExportData sampleEnv unstreakedStorage) ?u)) STORAGE_KEY_STREAK = Some (str ''0'')"
    by (simp add: du run_u data_u restore_exportedData store_after del: num_toString.simps)
       (simp add: setItem_def digits.simps str_def)
  show ?thesis
    by (intro conjI c1 c2 ec c4 c5 c6 c7 c8)
qed

section \<open>Properties of the move of a mastered item\<close>


lemma split_str_no_sep: "\<not> list_ex sep l \<Longrightarrow> split_str sep l = [l]"
  by (induction l) auto

lemma split_str_append:
  "\<not> list_ex sep l \<Longrightarrow> sep c \<Longrightarrow> split_str sep (l @ c # rest) = l # split_str sep rest"
  by (induction l) auto

lemma split_str_lines_no_sep: "l \<in> set (split_str sep s) \<Longrightarrow> \<not> list_ex sep l"
proof (induction s arbitrary: l)
  case Nil
  then show ?case by simp
next
  case (Cons c cs)
  obtain p ps where sp: "split_str sep cs = p # ps"
    using split_str_not_Nil [of sep cs] by (cases "split_str sep cs") auto
  show ?case
  proof (cases "sep c")
    case True
    with Cons show ?thesis by auto
  next
    case False
    with Cons.prems sp have "l = c # p \<or> l \<in> set ps" by simp
    then show ?thesis
    proof
      assume "l = c # p"
      moreover have "\<not> list_ex sep p" using Cons.IH [of p] sp by simp
      ultimately show ?thesis using False by simp
    next
      assume "l \<in> set ps"
      then show ?thesis using Cons.IH [of l] sp by simp
    qed
  qed
qed

lemma split_join_lines:
  "ls \<noteq> [] \<Longrightarrow> \<forall>l \<in> set ls. \<not> list_ex isNewline l \<Longrightarrow>
     split_str isNewline (join_lines ls) = ls"
proof (induction ls rule: join_lines.induct)
  case 1
  then show ?case by simp
next
  case (2 l)
  then show ?case by (simp add: split_str_no_sep)
next
  case (3 l m ls)
  have "split_str isNewline (l @ 10 # join_lines (m # ls))
      = l # split_str isNewline (join_lines (m # ls))"
  proof (rule split_str_append)
    show "\<not> list_ex isNewline l" using "3.prems"(2) by simp
    show "isNewline 10" by (simp add: isNewline_def)
  qed
  with 3 show ?case by simp
qed

lemma findIndex_Some:
  "findIndex p xs = Some i \<Longrightarrow> i < length xs \<and> p (xs ! i) \<and> (\<forall>j < i. \<not> p (xs ! j))"
proof (induction xs arbitrary: i)
  case Nil
  then show ?case by simp
next
  case (Cons x xs)
  show ?case
  proof (cases "p x")
    case True
    with Cons.prems show ?thesis by simp
  next
    case False
    with Cons.prems obtain i' where i': "findIndex p xs = Some i'" "i = Suc i'" by auto
    have "i' < length xs \<and> p (xs ! i') \<and> (\<forall>j < i'. \<not> p (xs ! j))"
      using Cons.IH [OF i'(1)] .
    with False i'(2) show ?thesis by (auto simp add: less_Suc_eq_0_disj)
  qed
qed

lemma findIndex_None: "findIndex p xs = None \<Longrightarrow> \<forall>x \<in> set xs. \<not> p x"
  by (induction xs) (auto split: if_splits)

lemma distinct_map_filter_index:
  "distinct (map f (filter K xs)) \<Longrightarrow> i < length xs \<Longrightarrow> j < length xs \<Longrightarrow>
     K (xs ! i) \<Longrightarrow> K (xs ! j) \<Longrightarrow> f (xs ! i) = f (xs ! j) \<Longrightarrow> i = j"
proof (induction xs arbitrary: i j)
  case Nil
  then show ?case by simp
next
  case (Cons x xs)
  have tail: "distinct (map f (filter K xs))"
    using Cons.prems(1) by (cases "K x") simp_all
  show ?case
  proof (cases i)
    case i0: 0
    show ?thesis
    proof (cases j)
      case 0
      with i0 show ?thesis by simp
    next
      case (Suc j')
      with Cons.prems i0 have "K x" "K (xs ! j')" "f x = f (xs ! j')" "j' < length xs" by simp_all
      then have "xs ! j' \<in> set (filter K xs)" by simp
      with \<open>f x = f (xs ! j')\<close> have "f x \<in> f ` set (filter K xs)" by (metis imageI)
      with \<open>K x\<close> Cons.prems(1) show ?thesis by simp
    qed
  next
    case si: (Suc i')
    show ?thesis
    proof (cases j)
      case 0
      with Cons.prems si have "K x" "K (xs ! i')" "f x = f (xs ! i')" "i' < length xs" by simp_all
      then have "xs ! i' \<in> set (filter K xs)" by simp
      with \<open>f x = f (xs ! i')\<close> have "f x \<in> f ` set (filter K xs)" by (metis imageI)
      with \<open>K x\<close> Cons.prems(1) show ?thesis by simp
    next
      case (Suc j')
      with Cons.prems si have "i' = j'"
        by (intro Cons.IH [OF tail]) simp_all
      with si Suc show ?thesis by simp
    qed
  qed
qed


lemma chars_parseInputData:
  "map char (parseInputData text)
     = map (\<lambda>l. trim (firstPart l)) (filter keptLine (split_str isNewline text))"
proof -
  have items: "map (\<lambda>w. (char w, word w)) (parseInputData text)
      = map (\<lambda>l. (trim (firstPart l), trim (secondPart l)))
          (filter keptLine (split_str isNewline text))"
  proof (cases "text = []")
    case True
    then show ?thesis
      by (simp add: parseInputData_def keptLine_def hasSeparator_def)
  next
    case False
    have "map fst (zip (split_str isNewline text) [0..<length (split_str isNewline text)])
          = split_str isNewline text"
      by simp
    with False show ?thesis
      using parsed_items_of_lines
        [of "zip (split_str isNewline text) [0..<length (split_str isNewline text)]"]
      by (simp only: parseInputData_def Let_def if_False)
  qed
  have "map char (parseInputData text) = map fst (map (\<lambda>w. (char w, word w)) (parseInputData text))"
    by simp
  also have "\<dots> = map fst (map (\<lambda>l. (trim (firstPart l), trim (secondPart l)))
          (filter keptLine (split_str isNewline text)))"
    by (simp only: items)
  finally show ?thesis by simp
qed

lemma first_part_of_split: "split_str isSeparator l ! 0 = firstPart l"
  using hd_split_str [of isSeparator l] split_str_not_Nil [of isSeparator l]
  by (simp add: hd_conv_nth firstPart_def)

text \<open>
  The move of a mastered item where it works. When the chars of the pool are distinct
  and every line of the input text whose trimmed first part is the target's char has a
  separator, the target's line is the only such line: the move takes the item out of the
  pool and keeps the ledger, and no round set after it has an item of that char as its
  target.
\<close>

lemma handleMastery_removes_item:
  assumes t: "t \<in> set (parseInputData (inputText a))"
    and dist: "distinct (map char (parseInputData (inputText a)))"
    and sep: "\<forall>l \<in> set (split_str isNewline (inputText a)).
                trim (firstPart l) = char t \<longrightarrow> hasSeparator l"
  shows "char t \<notin> set (map char (wordList (handleMastery t a)))"
    and "wordStats (handleMastery t a) = wordStats a"
proof -
  let ?lines = "split_str isNewline (inputText a)"
  let ?c = "char t"
  let ?f = "\<lambda>l. trim (firstPart l)"
  have chars: "map char (parseInputData (inputText a)) = map ?f (filter keptLine ?lines)"
    by (rule chars_parseInputData)
  have "?c \<in> set (map char (parseInputData (inputText a)))"
    using t by simp
  then obtain l0 where l0: "l0 \<in> set ?lines" "keptLine l0" "?f l0 = ?c"
    unfolding chars by auto
  then have c_ne: "?c \<noteq> []"
    by (auto simp add: keptLine_def)
  have kept: "keptLine l" if "l \<in> set ?lines" "?f l = ?c" for l
    using that sep c_ne by (simp add: keptLine_def)
  have "findIndex (\<lambda>l. ?f l = ?c) ?lines \<noteq> None"
    using findIndex_None [of "\<lambda>l. ?f l = ?c" ?lines] l0 by blast
  then obtain i where i: "findIndex (\<lambda>l. ?f l = ?c) ?lines = Some i"
    by blast
  have i_props: "i < length ?lines" "?f (?lines ! i) = ?c"
    using findIndex_Some [OF i] by simp_all
  have dist': "distinct (map ?f (filter keptLine ?lines))"
    using dist unfolding chars .
  have unique: "j = i" if "j < length ?lines" "?f (?lines ! j) = ?c" for j
  proof (rule distinct_map_filter_index [OF dist' that(1) i_props(1)])
    show "keptLine (?lines ! j)" using kept that by simp
    show "keptLine (?lines ! i)" using kept i_props by simp
    show "?f (?lines ! j) = ?f (?lines ! i)" using that(2) i_props(2) by simp
  qed
  let ?new = "take i ?lines @ drop (Suc i) ?lines"
  have none_left: "?f l \<noteq> ?c" if "l \<in> set ?new" for l
  proof
    assume eq: "?f l = ?c"
    from that have "l \<in> set (take i ?lines) \<or> l \<in> set (drop (Suc i) ?lines)" by simp
    then show False
    proof
      assume "l \<in> set (take i ?lines)"
      then obtain j where "j < i" "j < length ?lines" "l = ?lines ! j"
        by (auto simp add: in_set_conv_nth)
      with unique [of j] eq show False by simp
    next
      assume "l \<in> set (drop (Suc i) ?lines)"
      then obtain k where k: "k < length ?lines - Suc i" "l = ?lines ! (Suc i + k)"
        by (auto simp add: in_set_conv_nth)
      then have "Suc i + k < length ?lines" by simp
      with unique [of "Suc i + k"] eq k(2) show False by simp
    qed
  qed
  have new_lines: "\<forall>l \<in> set ?new. \<not> list_ex isNewline l"
  proof
    fix l assume "l \<in> set ?new"
    then have "l \<in> set ?lines"
      by (auto dest: in_set_takeD in_set_dropD)
    then show "\<not> list_ex isNewline l" by (rule split_str_lines_no_sep)
  qed
  have words: "wordList (handleMastery t a) = parseInputData (join_lines ?new)"
    and stats: "wordStats (handleMastery t a) = wordStats a"
    using i by (simp_all add: handleMastery_def Let_def first_part_of_split saveContentSettings_def)
  have "?c \<notin> set (map char (parseInputData (join_lines ?new)))"
  proof (cases "?new = []")
    case True
    then have "join_lines ?new = []" by (simp only: join_lines.simps)
    moreover have "parseInputData [] = []"
      by (simp add: parseInputData_def)
    ultimately have "parseInputData (join_lines ?new) = []"
      by (simp only:)
    then show ?thesis by simp
  next
    case False
    have "split_str isNewline (join_lines ?new) = ?new"
      using split_join_lines [OF False new_lines] .
    then have eq: "map char (parseInputData (join_lines ?new)) = map ?f (filter keptLine ?new)"
      by (simp only: chars_parseInputData)
    show ?thesis
    proof
      assume "?c \<in> set (map char (parseInputData (join_lines ?new)))"
      then have "?c \<in> ?f ` set (filter keptLine ?new)"
        by (simp only: eq set_map)
      then obtain l where l: "l \<in> set (filter keptLine ?new)" "?c = ?f l"
        by (rule imageE)
      from l(1) have "l \<in> set ?new"
        using filter_is_subset [of keptLine ?new] by blast
      with none_left [of l] l(2) show False by simp
    qed
  qed
  then show "char t \<notin> set (map char (wordList (handleMastery t a)))"
    unfolding words .
  show "wordStats (handleMastery t a) = wordStats a"
    by (rule stats)
qed

lemma mastered_item_not_selected:
  assumes "t \<in> set (parseInputData (inputText a))"
    and "distinct (map char (parseInputData (inputText a)))"
    and "\<forall>l \<in> set (split_str isNewline (inputText a)).
           trim (firstPart l) = char t \<longrightarrow> hasSeparator l"
    and "setupRound rnd (handleMastery t a) = Some a'"
    and "targetWord a' = Some t'"
  shows "char t' \<noteq> char t"
proof -
  let ?b = "handleMastery t a"
  have gone: "char t \<notin> set (map char (wordList ?b))"
    using handleMastery_removes_item(1) [OF assms(1,2,3)] .
  have ne: "wordList ?b \<noteq> []"
  proof
    assume "wordList ?b = []"
    then have "setupRound rnd ?b = Some (?b\<lparr>targetWord := None\<rparr>)"
      by (simp add: setupRound_def)
    with assms(4,5) show False by auto
  qed
  have "targetWord a' = selectTarget rnd (wordStats ?b) (wordList ?b)"
    using targetWord_setupRound [OF ne assms(4)] .
  with assms(5) selectTarget_member [OF ne, of rnd "wordStats ?b"]
  have "t' \<in> set (wordList ?b)" by auto
  then have "char t' \<in> set (map char (wordList ?b))" by simp
  with gone show ?thesis by metis
qed

end
